theory Spec2Isabelle
  imports Main
begin

section \<open>Data model\<close>

text \<open>
  The development follows \<^verbatim>\<open>haystack/nodes/summarizer/transformers.py\<close>: the class
  \<^verbatim>\<open>TransformersSummarizer\<close> with its two entry points \<^verbatim>\<open>predict\<close> and
  \<^verbatim>\<open>predict_batch\<close>.
\<close>

text \<open>Values of a metadata dictionary (\<^verbatim>\<open>Dict[str, Any]\<close>).\<close>

datatype py_value = VStr string | VInt int | VBool bool | VNone

text \<open>
  Modelled from the spec: the class \<^verbatim>\<open>Document\<close> of \<^verbatim>\<open>haystack.schema\<close> is imported by
  the module and not defined in it. The spec gives it \<^verbatim>\<open>content: text\<close> and
  \<^verbatim>\<open>metadata: mapping[string, any]\<close>, and says that a result Document built from an input
  document's metadata holds an updated copy of it. A document is therefore a value, and
  \<^verbatim>\<open>cur_doc.meta.update({"context": context})\<close> is a map update on the new document.
\<close>

record document =
  content :: string
  meta :: "string \<rightharpoonup> py_value"

text \<open>
  An element of the \<^verbatim>\<open>documents\<close> argument as \<^verbatim>\<open>isinstance\<close> sees it: a Document
  or a list. The annotated argument type \<^verbatim>\<open>Union[List[Document], List[List[Document]]]\<close>
  is \<open>map Doc ds\<close> or \<open>map (\<lambda>g. Grp (map Doc g)) gs\<close>.
\<close>

datatype item = Doc document | Grp "item list"

text \<open>An entry of the list \<^verbatim>\<open>predict_batch\<close> returns: a Document or a list of Documents.\<close>

datatype result_item = RDoc document | RList "document list"

text \<open>The two \<^verbatim>\<open>raise AttributeError(...)\<close> of the module, and the \<^verbatim>\<open>IndexError\<close> of
  \<^verbatim>\<open>cur_summaries[0]\<close> on an empty list.\<close>

datatype error = AttributeError string | IndexError

text \<open>
  The collaborators behind \<^verbatim>\<open>self.summarizer\<close>: the tokenizer (its \<^verbatim>\<open>input_ids\<close>, one
  token-id sequence per text), its \<^verbatim>\<open>model_max_length\<close>, and the pipeline call itself,
  in its two uses: on a list of texts (one summary text per result) and on a dataset
  (an iterable of batches of summary texts). The call's arguments are the texts,
  \<^verbatim>\<open>min_length\<close>, \<^verbatim>\<open>max_length\<close>, \<^verbatim>\<open>clean_up_tokenization_spaces\<close> and, for the dataset,
  \<^verbatim>\<open>batch_size\<close>.
\<close>

record pipeline =
  tokenizer :: "string list \<Rightarrow> int list list"
  model_max_length :: int
  summarizer_list :: "string list \<Rightarrow> int \<Rightarrow> int \<Rightarrow> bool \<Rightarrow> string list"
  summarizer_dataset :: "string list \<Rightarrow> int \<Rightarrow> int \<Rightarrow> bool \<Rightarrow> int \<Rightarrow> string list list"

text \<open>The attributes \<^verbatim>\<open>__init__\<close> sets and no method changes.\<close>

record transformers_summarizer =
  summarizer :: pipeline
  max_length :: int
  min_length :: int
  clean_up_tokenization_spaces :: bool
  separator_for_single_summary :: string
  generate_single_summary :: bool
  batch_size :: int
  progress_bar :: bool

text \<open>
  What a call can change or cause, in order of occurrence: the calls of the tokenizer and
  of the pipeline with the texts they receive, and the warnings given to the logger.
  \<^verbatim>\<open>self.print_log\<close> is the one attribute a method updates.
\<close>

datatype event = TokenizerCall "string list" | SummarizerCall "string list" | LoggerWarning string

record summarizer_state =
  print_log :: "string set"
  events :: "event list"

section \<open>Strings\<close>

text \<open>\<^verbatim>\<open>sep.join(xs)\<close>.\<close>

fun join :: "string \<Rightarrow> string list \<Rightarrow> string" where
  "join sep [] = []"
| "join sep [x] = x"
| "join sep (x # y # ys) = x @ sep @ join sep (y # ys)"

text \<open>The decimal text of an integer, as an f-string formats it.\<close>

definition digit_char :: "nat \<Rightarrow> char" where
  "digit_char d = char_of (48 + d)"

fun str_nat :: "nat \<Rightarrow> string" where
  "str_nat n = (if n < 10 then [digit_char n] else str_nat (n div 10) @ [digit_char (n mod 10)])"

declare str_nat.simps [simp del]

definition str_int :: "int \<Rightarrow> string" where
  "str_int i = (if i < 0 then CHR ''-'' # str_nat (nat (- i)) else str_nat (nat i))"

definition truncation_warning :: "int \<Rightarrow> string" where
  "truncation_warning mml =
     ''One or more of your input document texts is longer than the specified '' @
     ''maximum sequence length for this summarizer model. '' @
     ''Generating summary from first '' @ str_int mml @ '' tokens.''"

definition min_length_error :: error where
  "min_length_error = AttributeError ''min_length cannot be greater than max_length''"

definition no_document_error :: error where
  "no_document_error = AttributeError ''Summarizer needs at least one document to produce a summary.''"

section \<open>predict\<close>

text \<open>\<^verbatim>\<open>Document(content=summary, meta={"context": context})\<close>.\<close>

definition summary_doc :: "string \<Rightarrow> string \<Rightarrow> document" where
  "summary_doc summary context = \<lparr>content = summary, meta = [''context'' \<mapsto> VStr context]\<rparr>"

definition emit :: "event \<Rightarrow> summarizer_state \<Rightarrow> summarizer_state" where
  "emit e st = st\<lparr>events := events st @ [e]\<rparr>"

text \<open>Lines 161--172: the loop over \<^verbatim>\<open>encoded_input["input_ids"]\<close>.\<close>

fun predict_advise :: "int \<Rightarrow> int list list \<Rightarrow> summarizer_state \<Rightarrow> summarizer_state" where
  "predict_advise mml [] st = st"
| "predict_advise mml (input_id # rest) st =
     (let tokens_count = int (length input_id) in
      if tokens_count > mml then
        (if truncation_warning mml \<notin> print_log st then
           predict_advise mml rest
             ((emit (LoggerWarning (truncation_warning mml)) st)
                \<lparr>print_log := insert (truncation_warning mml) (print_log st)\<rparr>)
         else predict_advise mml rest st)
      else predict_advise mml rest st)"

definition predict ::
  "transformers_summarizer \<Rightarrow> summarizer_state \<Rightarrow> document list \<Rightarrow> bool option \<Rightarrow>
     (error + document list) \<times> summarizer_state" where
  "predict self st documents generate_single_summary_arg =
     (if min_length self > max_length self then (Inl min_length_error, st)
      else if length documents = 0 then (Inl no_document_error, st)
      else
        let single = (case generate_single_summary_arg of
                        None \<Rightarrow> generate_single_summary self | Some b \<Rightarrow> b);
            contexts = map content documents;
            contexts = (if single then [join (separator_for_single_summary self) contexts]
                        else contexts);
            encoded_input = tokenizer (summarizer self) contexts;
            st = emit (TokenizerCall contexts) st;
            st = predict_advise (model_max_length (summarizer self)) encoded_input st;
            summaries = summarizer_list (summarizer self) contexts (min_length self)
                          (max_length self) (clean_up_tokenization_spaces self);
            st = emit (SummarizerCall contexts) st;
            result =
              (if single then
                 map (\<lambda>(context, summarized_answer). summary_doc summarized_answer context)
                   (zip contexts summaries)
               else
                 map (\<lambda>(context, summarized_answer, document).
                        \<lparr>content = summarized_answer,
                         meta = (meta document)(''context'' \<mapsto> VStr context)\<rparr>)
                   (zip contexts (zip summaries documents)))
        in (Inr result, st))"

section \<open>predict_batch\<close>

text \<open>The comprehension \<^verbatim>\<open>[doc.content for doc in docs if isinstance(doc, Document)]\<close>.\<close>

definition doc_contents :: "item list \<Rightarrow> string list" where
  "doc_contents docs = [content doc. Doc doc \<leftarrow> docs]"

text \<open>\<^verbatim>\<open>isinstance(x, list)\<close> and \<^verbatim>\<open>isinstance(x, Document)\<close>.\<close>

fun is_list :: "item \<Rightarrow> bool" where
  "is_list (Grp _) = True"
| "is_list (Doc _) = False"

fun is_Document :: "item \<Rightarrow> bool" where
  "is_Document (Doc _) = True"
| "is_Document (Grp _) = False"

text \<open>
  Lines 220--222, the condition of the second \<^verbatim>\<open>raise\<close>. Python's \<^verbatim>\<open>or\<close> does not
  evaluate \<^verbatim>\<open>documents[0]\<close> on an empty list; the disjunction is true there whatever
  its second disjunct is.
\<close>

definition no_documents :: "item list \<Rightarrow> bool" where
  "no_documents documents =
     (length documents = 0 \<or>
      (is_list (documents ! 0) \<and> list_all (\<lambda>docs. length docs = 0) [docs. Grp docs \<leftarrow> documents]))"

text \<open>
  Lines 235--255: the texts given to the model (\<^verbatim>\<open>contexts\<close>, after the branch) and
  \<^verbatim>\<open>number_of_docs\<close>.
\<close>

definition build_contexts ::
  "string \<Rightarrow> bool \<Rightarrow> bool \<Rightarrow> item list \<Rightarrow> string list \<times> nat list" where
  "build_contexts sep single_doc_list single documents =
     (let flat_contexts = doc_contents documents;
          nested_contexts = [doc_contents docs. Grp docs \<leftarrow> documents]
      in if single then
           (let contexts = (if single_doc_list then [join sep flat_contexts]
                            else map (join sep) nested_contexts)
            in (contexts, map (\<lambda>_. 1) contexts))
         else if single_doc_list then (flat_contexts, map (\<lambda>_. 1) flat_contexts)
         else (concat nested_contexts, map length nested_contexts))"

text \<open>Lines 258--268: the loop over the token-id sequences, left at the first warning.\<close>

fun batch_advise :: "int \<Rightarrow> int list list \<Rightarrow> summarizer_state \<Rightarrow> summarizer_state" where
  "batch_advise mml [] st = st"
| "batch_advise mml (input_id # rest) st =
     (let tokens_count = int (length input_id) in
      if tokens_count > mml then emit (LoggerWarning (truncation_warning mml)) st
      else batch_advise mml rest st)"

text \<open>The slice \<^verbatim>\<open>xs[left_idx:right_idx]\<close> for \<open>0 \<le> left_idx \<le> right_idx\<close>.\<close>

definition slice :: "'a list \<Rightarrow> nat \<Rightarrow> nat \<Rightarrow> 'a list" where
  "slice xs left_idx right_idx = take (right_idx - left_idx) (drop left_idx xs)"

text \<open>
  Lines 290--298: the loop over \<^verbatim>\<open>number_of_docs\<close>, which appends the slice of
  \<^verbatim>\<open>summaries\<close> to \<^verbatim>\<open>grouped_summaries\<close> and the slice of \<^verbatim>\<open>contexts\<close> with the same
  bounds to \<^verbatim>\<open>grouped_contexts\<close>; \<open>group_together\<close> is the loop for one of the two lists.
\<close>

fun group_together :: "nat \<Rightarrow> nat list \<Rightarrow> 'a list \<Rightarrow> 'a list list" where
  "group_together left_idx [] xs = []"
| "group_together left_idx (number # rest) xs =
     (let right_idx = left_idx + number
      in slice xs left_idx right_idx # group_together right_idx rest xs)"

text \<open>Lines 302--305.\<close>

definition cur_summaries :: "string list \<Rightarrow> string list \<Rightarrow> document list" where
  "cur_summaries summary_group context_group =
     map (\<lambda>(summary, context). summary_doc summary context) (zip summary_group context_group)"

text \<open>Lines 300--309: the loop that builds \<^verbatim>\<open>result\<close>; \<^verbatim>\<open>cur_summaries[0]\<close> raises on
  an empty list.\<close>

fun build_result :: "bool \<Rightarrow> (string list \<times> string list) list \<Rightarrow> error + result_item list" where
  "build_result single_doc_list [] = Inr []"
| "build_result single_doc_list ((summary_group, context_group) # rest) =
     (if single_doc_list then
        (case cur_summaries summary_group context_group of
           [] \<Rightarrow> Inl IndexError
         | d # _ \<Rightarrow>
             (case build_result single_doc_list rest of
                Inl e \<Rightarrow> Inl e
              | Inr result \<Rightarrow> Inr (RDoc d # result)))
      else
        (case build_result single_doc_list rest of
           Inl e \<Rightarrow> Inl e
         | Inr result \<Rightarrow> Inr (RList (cur_summaries summary_group context_group) # result)))"

definition predict_batch ::
  "transformers_summarizer \<Rightarrow> summarizer_state \<Rightarrow> item list \<Rightarrow> bool option \<Rightarrow> int option \<Rightarrow>
     (error + result_item list) \<times> summarizer_state" where
  "predict_batch self st documents generate_single_summary_arg batch_size_arg =
     (if min_length self > max_length self then (Inl min_length_error, st)
      else if no_documents documents then (Inl no_document_error, st)
      else
        let bs = (case batch_size_arg of None \<Rightarrow> batch_size self | Some b \<Rightarrow> b);
            single = (case generate_single_summary_arg of
                        None \<Rightarrow> generate_single_summary self | Some b \<Rightarrow> b);
            single_doc_list = is_Document (documents ! 0);
            (contexts, number_of_docs) =
               build_contexts (separator_for_single_summary self) single_doc_list single documents;
            encoded_input = tokenizer (summarizer self) contexts;
            st = emit (TokenizerCall contexts) st;
            st = batch_advise (model_max_length (summarizer self)) encoded_input st;
            summaries = concat (summarizer_dataset (summarizer self) contexts (min_length self)
                                  (max_length self) (clean_up_tokenization_spaces self) bs);
            st = emit (SummarizerCall contexts) st;
            grouped_summaries = group_together 0 number_of_docs summaries;
            grouped_contexts = group_together 0 number_of_docs contexts
        in (build_result single_doc_list (zip grouped_summaries grouped_contexts), st))"

section \<open>Inputs, collaborators and runs\<close>

text \<open>The two shapes of the annotated argument type of \<^verbatim>\<open>predict_batch\<close>.\<close>

definition flat_input :: "document list \<Rightarrow> item list" where
  "flat_input docs = map Doc docs"

definition groups_input :: "document list list \<Rightarrow> item list" where
  "groups_input groups = map (\<lambda>docs. Grp (map Doc docs)) groups"

text \<open>
  Modelled from the spec: the inference engine (the HuggingFace pipeline) is imported, not
  defined, by the module. The spec's contract for it: given a list of text strings and the
  generation parameters it returns, in the same order, one generated summary string per
  input string.
\<close>

definition one_summary_per_text :: "pipeline \<Rightarrow> bool" where
  "one_summary_per_text p =
     ((\<forall>texts mn mx cl. length (summarizer_list p texts mn mx cl) = length texts) \<and>
      (\<forall>texts mn mx cl bs. length (concat (summarizer_dataset p texts mn mx cl bs)) = length texts))"

text \<open>The values of the local variables of \<^verbatim>\<open>predict_batch\<close> in a call that passes the
  two guards, as functions of the call's arguments.\<close>

definition single_of :: "transformers_summarizer \<Rightarrow> bool option \<Rightarrow> bool" where
  "single_of self generate_single_summary_arg =
     (case generate_single_summary_arg of None \<Rightarrow> generate_single_summary self | Some b \<Rightarrow> b)"

definition batch_size_of :: "transformers_summarizer \<Rightarrow> int option \<Rightarrow> int" where
  "batch_size_of self batch_size_arg =
     (case batch_size_arg of None \<Rightarrow> batch_size self | Some b \<Rightarrow> b)"

definition batch_contexts :: "transformers_summarizer \<Rightarrow> item list \<Rightarrow> bool option \<Rightarrow> string list" where
  "batch_contexts self documents g =
     fst (build_contexts (separator_for_single_summary self) (is_Document (documents ! 0))
            (single_of self g) documents)"

definition batch_number_of_docs :: "transformers_summarizer \<Rightarrow> item list \<Rightarrow> bool option \<Rightarrow> nat list" where
  "batch_number_of_docs self documents g =
     snd (build_contexts (separator_for_single_summary self) (is_Document (documents ! 0))
            (single_of self g) documents)"

definition batch_summaries ::
  "transformers_summarizer \<Rightarrow> item list \<Rightarrow> bool option \<Rightarrow> int option \<Rightarrow> string list" where
  "batch_summaries self documents g b =
     concat (summarizer_dataset (summarizer self) (batch_contexts self documents g)
               (min_length self) (max_length self) (clean_up_tokenization_spaces self)
               (batch_size_of self b))"

text \<open>The texts and the summaries of a call of \<^verbatim>\<open>predict\<close> that passes the two guards.\<close>

definition predict_contexts :: "transformers_summarizer \<Rightarrow> document list \<Rightarrow> bool option \<Rightarrow> string list" where
  "predict_contexts self documents g =
     (if single_of self g then [join (separator_for_single_summary self) (map content documents)]
      else map content documents)"

definition predict_summaries :: "transformers_summarizer \<Rightarrow> document list \<Rightarrow> bool option \<Rightarrow> string list" where
  "predict_summaries self documents g =
     summarizer_list (summarizer self) (predict_contexts self documents g)
       (min_length self) (max_length self) (clean_up_tokenization_spaces self)"

text \<open>The events a call adds to those of the state it started in.\<close>

definition new_events :: "summarizer_state \<Rightarrow> summarizer_state \<Rightarrow> event list" where
  "new_events st st' = drop (length (events st)) (events st')"

fun is_SummarizerCall :: "event \<Rightarrow> bool" where
  "is_SummarizerCall (SummarizerCall _) = True"
| "is_SummarizerCall _ = False"

fun is_LoggerWarning :: "event \<Rightarrow> bool" where
  "is_LoggerWarning (LoggerWarning _) = True"
| "is_LoggerWarning _ = False"

text \<open>Some text has more tokens than the tokenizer's maximum sequence length.\<close>

definition too_long :: "pipeline \<Rightarrow> string list \<Rightarrow> bool" where
  "too_long p contexts = list_ex (\<lambda>input_id. int (length input_id) > model_max_length p) (tokenizer p contexts)"

text \<open>The state of a new instance (\<^verbatim>\<open>self.print_log = set()\<close>), and the state after a
  series of calls of \<^verbatim>\<open>predict\<close> on it.\<close>

definition initial_state :: summarizer_state where
  "initial_state = \<lparr>print_log = {}, events = []\<rparr>"

fun predict_calls ::
  "transformers_summarizer \<Rightarrow> summarizer_state \<Rightarrow> (document list \<times> bool option) list \<Rightarrow> summarizer_state" where
  "predict_calls self st [] = st"
| "predict_calls self st ((documents, g) # calls) =
     predict_calls self (snd (predict self st documents g)) calls"

text \<open>A call of \<^verbatim>\<open>predict\<close> that passes the input guard and gives the tokenizer a
  text longer than its maximum sequence length.\<close>

definition overlong_call :: "transformers_summarizer \<Rightarrow> document list \<times> bool option \<Rightarrow> bool" where
  "overlong_call self call =
     (fst call \<noteq> [] \<and> too_long (summarizer self) (predict_contexts self (fst call) (snd call)))"

text \<open>
  A series of calls of the two methods on one instance: the state after the series, and
  the warnings that the calls of \<^verbatim>\<open>predict\<close> in the series give to the logger.
\<close>

datatype method_call =
  Predict "document list" "bool option"
| PredictBatch "item list" "bool option" "int option"

fun after_calls :: "transformers_summarizer \<Rightarrow> summarizer_state \<Rightarrow> method_call list \<Rightarrow> summarizer_state" where
  "after_calls self st [] = st"
| "after_calls self st (Predict documents g # calls) =
     after_calls self (snd (predict self st documents g)) calls"
| "after_calls self st (PredictBatch items g b # calls) =
     after_calls self (snd (predict_batch self st items g b)) calls"

fun logged_by_predict :: "transformers_summarizer \<Rightarrow> summarizer_state \<Rightarrow> method_call list \<Rightarrow> event list" where
  "logged_by_predict self st [] = []"
| "logged_by_predict self st (Predict documents g # calls) =
     filter is_LoggerWarning (new_events st (snd (predict self st documents g))) @
     logged_by_predict self (snd (predict self st documents g)) calls"
| "logged_by_predict self st (PredictBatch items g b # calls) =
     logged_by_predict self (snd (predict_batch self st items g b)) calls"

fun overlong_predict :: "transformers_summarizer \<Rightarrow> method_call \<Rightarrow> bool" where
  "overlong_predict self (Predict documents g) = overlong_call self (documents, g)"
| "overlong_predict self (PredictBatch items g b) = False"

subsection \<open>A concrete instance\<close>

text \<open>
  A tokenizer with one token per character and a limit of four tokens, and a model whose
  summary of a text is its first two characters; the other attributes have the defaults
  of \<^verbatim>\<open>__init__\<close>.
\<close>

definition example_pipeline :: pipeline where
  "example_pipeline =
     \<lparr>tokenizer = map (map (\<lambda>c. int (of_char c))),
      model_max_length = 4,
      summarizer_list = (\<lambda>texts mn mx cl. map (take 2) texts),
      summarizer_dataset = (\<lambda>texts mn mx cl bs. map (\<lambda>t. [take 2 t]) texts)\<rparr>"

definition example_summarizer :: "int \<Rightarrow> int \<Rightarrow> transformers_summarizer" where
  "example_summarizer mn mx =
     \<lparr>summarizer = example_pipeline, max_length = mx, min_length = mn,
      clean_up_tokenization_spaces = True, separator_for_single_summary = '' '',
      generate_single_summary = False, batch_size = 16, progress_bar = True\<rparr>"

definition plain_doc :: "string \<Rightarrow> document" where
  "plain_doc text = \<lparr>content = text, meta = Map.empty\<rparr>"

definition authored_doc :: "string \<Rightarrow> string \<Rightarrow> document" where
  "authored_doc text author = \<lparr>content = text, meta = [''author'' \<mapsto> VStr author]\<rparr>"

section \<open>Auxiliary facts\<close>

subsection \<open>Lists\<close>

lemma sum_list_ones: "sum_list (map (\<lambda>_. 1::nat) xs) = length xs"
  by (induction xs) auto

lemma offset_bound:
  "i < length ns \<Longrightarrow> sum_list (take i ns) + ns ! i \<le> sum_list (ns::nat list)"
proof -
  assume i: "i < length ns"
  have "sum_list ns = sum_list (take i ns) + sum_list (drop i ns)"
    by (metis append_take_drop_id sum_list_append)
  moreover have "drop i ns = ns ! i # drop (Suc i) ns"
    using i by (simp add: Cons_nth_drop_Suc)
  ultimately show ?thesis by simp
qed

lemma zip_singletons:
  "zip (map (\<lambda>y. [y]) xs) (map (\<lambda>y. [y]) ys) = map (\<lambda>(s, c). ([s], [c])) (zip xs ys)"
  by (simp add: zip_map_map)

lemma singleton_nth0: "length xs = Suc 0 \<Longrightarrow> xs = [xs ! 0]"
  by (cases xs) auto

subsection \<open>Slices and groups\<close>

lemma length_group_together: "length (group_together l ns xs) = length ns"
  by (induction ns arbitrary: l) (auto simp: Let_def)

lemma group_together_nth:
  "i < length ns \<Longrightarrow> group_together l ns xs ! i =
     slice xs (l + sum_list (take i ns)) (l + sum_list (take i ns) + ns ! i)"
proof (induction ns arbitrary: l i)
  case Nil
  then show ?case by simp
next
  case (Cons n ns)
  show ?case
  proof (cases i)
    case 0
    then show ?thesis by (simp add: Let_def)
  next
    case (Suc j)
    with Cons.prems have "j < length ns" by simp
    from Cons.IH[OF this, of "l + n"] Suc show ?thesis
      by (simp add: Let_def add.assoc)
  qed
qed

lemma concat_group_together:
  "concat (group_together l ns xs) = take (sum_list ns) (drop l xs)"
proof (induction ns arbitrary: l)
  case Nil
  then show ?case by simp
next
  case (Cons n ns)
  have "concat (group_together l (n # ns) xs) = take n (drop l xs) @ take (sum_list ns) (drop (l + n) xs)"
    using Cons.IH[of "l + n"] by (simp add: Let_def slice_def)
  also have "\<dots> = take (n + sum_list ns) (drop l xs)"
    by (simp add: take_add add.commute)
  finally show ?case by simp
qed

lemma map_length_group_together:
  "l + sum_list ns \<le> length xs \<Longrightarrow> map length (group_together l ns xs) = ns"
  by (induction ns arbitrary: l) (auto simp: Let_def slice_def)

lemma slice_nth:
  "r \<le> length xs \<Longrightarrow> k < r - l \<Longrightarrow> slice xs l r ! k = xs ! (l + k)"
  by (simp add: slice_def)

lemma group_together_nth0:
  "i < length ns \<Longrightarrow> group_together 0 ns xs ! i =
     slice xs (sum_list (take i ns)) (sum_list (take i ns) + ns ! i)"
  using group_together_nth[of i ns 0 xs] by simp

lemma length_slice: "r \<le> length xs \<Longrightarrow> length (slice xs l r) = r - l"
  by (simp add: slice_def)

lemma group_together_ones:
  "l + length xs \<le> length ys \<Longrightarrow>
   group_together l (map (\<lambda>_. 1) xs) ys = map (\<lambda>y. [y]) (take (length xs) (drop l ys))"
proof (induction xs arbitrary: l)
  case Nil
  then show ?case by simp
next
  case (Cons x xs)
  from Cons.prems have l: "l < length ys" and rest: "Suc l + length xs \<le> length ys" by simp_all
  have d: "drop l ys = ys ! l # drop (Suc l) ys"
    using l by (simp add: Cons_nth_drop_Suc)
  show ?case
    using Cons.IH[OF rest] by (simp add: Let_def slice_def d)
qed

lemma group_together_ones0:
  "length ys = length xs \<Longrightarrow> group_together 0 (map (\<lambda>_. 1) xs) ys = map (\<lambda>y. [y]) ys"
  using group_together_ones[of 0 xs ys] by simp

subsection \<open>Texts, counts and the two input shapes\<close>

lemma build_contexts_sum:
  "sum_list (snd (build_contexts sep sdl single documents)) = length (fst (build_contexts sep sdl single documents))"
proof (cases single)
  case True
  then show ?thesis
    by (cases sdl) (simp_all add: build_contexts_def Let_def sum_list_ones comp_def del: One_nat_def)
next
  case False
  then show ?thesis
    by (cases sdl) (simp_all add: build_contexts_def Let_def sum_list_ones length_concat del: One_nat_def)
qed

lemma doc_contents_flat: "doc_contents (flat_input docs) = map content docs"
  by (induction docs) (auto simp: doc_contents_def flat_input_def)

lemma doc_contents_Doc: "doc_contents (map Doc docs) = map content docs"
  using doc_contents_flat by (simp add: flat_input_def)

lemma nested_groups: "[doc_contents d. Grp d \<leftarrow> groups_input gs] = map (map content) gs"
  by (induction gs) (auto simp: groups_input_def doc_contents_Doc)

lemma lengths_groups: "[docs. Grp docs \<leftarrow> groups_input gs] = map (map Doc) gs"
  by (induction gs) (auto simp: groups_input_def)

lemma first_flat: "docs \<noteq> [] \<Longrightarrow> is_Document (flat_input docs ! 0) \<and> \<not> is_list (flat_input docs ! 0)"
  by (cases docs) (auto simp: flat_input_def)

lemma first_groups: "gs \<noteq> [] \<Longrightarrow> \<not> is_Document (groups_input gs ! 0) \<and> is_list (groups_input gs ! 0)"
  by (cases gs) (auto simp: groups_input_def)

lemma no_documents_flat: "no_documents (flat_input docs) \<longleftrightarrow> docs = []"
proof (cases docs)
  case Nil
  then show ?thesis by (simp add: no_documents_def flat_input_def)
next
  case (Cons d ds)
  then show ?thesis by (simp add: no_documents_def flat_input_def)
qed

lemma no_documents_groups: "no_documents (groups_input gs) \<longleftrightarrow> (\<forall>g \<in> set gs. g = [])"
proof (cases gs)
  case Nil
  then show ?thesis by (simp add: no_documents_def groups_input_def)
next
  case (Cons a list)
  then have "gs \<noteq> []" by simp
  from first_groups[OF this] have "is_list (groups_input gs ! 0)" by simp
  moreover have "length (groups_input gs) \<noteq> 0" using Cons by (simp add: groups_input_def)
  ultimately show ?thesis
    by (simp add: no_documents_def lengths_groups list_all_iff)
qed

lemma no_documents_groups_nonempty: "\<not> no_documents (groups_input gs) \<Longrightarrow> gs \<noteq> []"
  by (auto simp: no_documents_groups)

lemma join_example: "join '' '' [''A. B. C.'', ''D. E. F.''] = ''A. B. C. D. E. F.''"
  by simp

subsection \<open>The advisory loops\<close>

lemma predict_advise_effect:
  "predict_advise mml enc st =
     (if list_ex (\<lambda>input_id. int (length input_id) > mml) enc \<and> truncation_warning mml \<notin> print_log st
      then (emit (LoggerWarning (truncation_warning mml)) st)\<lparr>print_log := insert (truncation_warning mml) (print_log st)\<rparr>
      else st)"
  by (induction enc arbitrary: st) (auto simp: Let_def emit_def)

lemma batch_advise_effect:
  "batch_advise mml enc st =
     (if list_ex (\<lambda>input_id. int (length input_id) > mml) enc
      then emit (LoggerWarning (truncation_warning mml)) st else st)"
  by (induction enc arbitrary: st) (auto simp: Let_def)

lemma events_emit: "events (emit e st) = events st @ [e]"
  by (simp add: emit_def)

lemma print_log_emit: "print_log (emit e st) = print_log st"
  by (simp add: emit_def)

subsection \<open>The result lists\<close>

lemma build_result_groups:
  "build_result False gs = Inr (map (\<lambda>(s, c). RList (cur_summaries s c)) gs)"
  by (induction gs) auto

lemma cur_summaries_nth:
  "k < length ss \<Longrightarrow> k < length cs \<Longrightarrow>
   cur_summaries ss cs ! k = summary_doc (ss ! k) (cs ! k)"
  by (simp add: cur_summaries_def)

lemma build_result_singletons_flat:
  "build_result True (map (\<lambda>(s, c). ([s], [c])) zs) =
     Inr (map (\<lambda>(s, c). RDoc (summary_doc s c)) zs)"
  by (induction zs) (simp_all add: cur_summaries_def split_beta)

lemma build_result_singletons_groups:
  "build_result False (map (\<lambda>(s, c). ([s], [c])) zs) =
     Inr (map (\<lambda>(s, c). RList [summary_doc s c]) zs)"
  by (induction zs) (simp_all add: cur_summaries_def split_beta)

lemma context_of_summary_doc: "meta (summary_doc s c) ''context'' = Some (VStr c)"
  by (simp add: summary_doc_def)

lemma length_cur_summaries:
  "length (cur_summaries ss cs) = min (length ss) (length cs)"
  by (simp add: cur_summaries_def)

subsection \<open>A call of predict\<close>

lemma predict_valid:
  assumes "min_length self \<le> max_length self" and "documents \<noteq> []"
  shows "predict self st documents g =
    (Inr (if single_of self g then
            map (\<lambda>(context, summarized_answer). summary_doc summarized_answer context)
              (zip (predict_contexts self documents g) (predict_summaries self documents g))
          else
            map (\<lambda>(context, summarized_answer, document).
                   \<lparr>content = summarized_answer,
                    meta = (meta document)(''context'' \<mapsto> VStr context)\<rparr>)
              (zip (predict_contexts self documents g) (zip (predict_summaries self documents g) documents))),
     emit (SummarizerCall (predict_contexts self documents g))
       (predict_advise (model_max_length (summarizer self))
          (tokenizer (summarizer self) (predict_contexts self documents g))
          (emit (TokenizerCall (predict_contexts self documents g)) st)))"
  using assms
  by (simp add: predict_def Let_def predict_contexts_def predict_summaries_def single_of_def)

lemma predict_summaries_length:
  "one_summary_per_text (summarizer self) \<Longrightarrow>
   length (predict_summaries self documents g) = length (predict_contexts self documents g)"
  by (simp add: one_summary_per_text_def predict_summaries_def)

lemma predict_contexts_length:
  "length (predict_contexts self documents g) = (if single_of self g then 1 else length documents)"
  by (simp add: predict_contexts_def)

lemma predict_new_events:
  assumes "min_length self \<le> max_length self" and "documents \<noteq> []"
  shows "new_events st (snd (predict self st documents g)) =
     TokenizerCall (predict_contexts self documents g) #
     (if too_long (summarizer self) (predict_contexts self documents g)
         \<and> truncation_warning (model_max_length (summarizer self)) \<notin> print_log st
      then [LoggerWarning (truncation_warning (model_max_length (summarizer self)))] else []) @
     [SummarizerCall (predict_contexts self documents g)]"
  by (simp add: predict_valid[OF assms] new_events_def events_emit predict_advise_effect too_long_def
        print_log_emit)

lemma predict_print_log:
  assumes "min_length self \<le> max_length self" and "documents \<noteq> []"
  shows "print_log (snd (predict self st documents g)) =
     (if too_long (summarizer self) (predict_contexts self documents g)
      then insert (truncation_warning (model_max_length (summarizer self))) (print_log st)
      else print_log st)"
  by (auto simp add: predict_valid[OF assms] predict_advise_effect too_long_def print_log_emit)

lemma predict_merged:
  assumes contract: "one_summary_per_text (summarizer self)"
    and valid: "min_length self \<le> max_length self" and ne: "documents \<noteq> []"
    and single: "single_of self g"
  shows "filter is_SummarizerCall (new_events st (snd (predict self st documents g)))
           = [SummarizerCall [join (separator_for_single_summary self) (map content documents)]]"
    and "fst (predict self st documents g)
           = Inr [summary_doc (predict_summaries self documents g ! 0)
                    (join (separator_for_single_summary self) (map content documents))]"
proof -
  have c: "predict_contexts self documents g = [join (separator_for_single_summary self) (map content documents)]"
    using single by (simp add: predict_contexts_def)
  have "length (predict_summaries self documents g) = Suc 0"
    using predict_summaries_length[OF contract, of documents g] by (simp add: c)
  then have s: "predict_summaries self documents g = [predict_summaries self documents g ! 0]"
    by (rule singleton_nth0)
  show "filter is_SummarizerCall (new_events st (snd (predict self st documents g)))
           = [SummarizerCall [join (separator_for_single_summary self) (map content documents)]]"
    by (simp add: predict_new_events[OF valid ne] c)
  have "fst (predict self st documents g)
          = Inr (map (\<lambda>(context, summarized_answer). summary_doc summarized_answer context)
                   (zip (predict_contexts self documents g) (predict_summaries self documents g)))"
    using single by (simp add: predict_valid[OF valid ne])
  also have "\<dots> = Inr [summary_doc (predict_summaries self documents g ! 0)
                    (join (separator_for_single_summary self) (map content documents))]"
    unfolding c by (subst s) simp
  finally show "fst (predict self st documents g)
           = Inr [summary_doc (predict_summaries self documents g ! 0)
                    (join (separator_for_single_summary self) (map content documents))]" .
qed

lemma predict_keeps_metadata:
  assumes contract: "one_summary_per_text (summarizer self)"
    and valid: "min_length self \<le> max_length self" and ne: "documents \<noteq> []"
    and per_doc: "\<not> single_of self g"
    and i: "i < length documents"
  shows "\<exists>result. fst (predict self st documents g) = Inr result \<and> length result = length documents
           \<and> content (result ! i) = predict_summaries self documents g ! i
           \<and> meta (result ! i) = (meta (documents ! i))(''context'' \<mapsto> VStr (content (documents ! i)))"
proof -
  have c: "predict_contexts self documents g = map content documents"
    using per_doc by (simp add: predict_contexts_def)
  have ls: "length (predict_summaries self documents g) = length documents"
    using predict_summaries_length[OF contract, of documents g] by (simp add: c)
  show ?thesis
    using per_doc i ls by (simp add: predict_valid[OF valid ne] c)
qed

lemma predict_invalid_input: "snd (predict self st [] g) = st"
  by (simp add: predict_def)

lemma predict_events:
  assumes "min_length self \<le> max_length self" and "documents \<noteq> []"
  shows "events (snd (predict self st documents g)) =
     events st @ TokenizerCall (predict_contexts self documents g) #
     (if too_long (summarizer self) (predict_contexts self documents g)
         \<and> truncation_warning (model_max_length (summarizer self)) \<notin> print_log st
      then [LoggerWarning (truncation_warning (model_max_length (summarizer self)))] else []) @
     [SummarizerCall (predict_contexts self documents g)]"
  by (simp add: predict_valid[OF assms] events_emit predict_advise_effect too_long_def print_log_emit)

lemma predict_calls_print_log:
  assumes valid: "min_length self \<le> max_length self"
  shows "print_log (predict_calls self st calls) =
     (if list_ex (overlong_call self) calls
      then insert (truncation_warning (model_max_length (summarizer self))) (print_log st)
      else print_log st)"
proof (induction calls arbitrary: st)
  case Nil
  then show ?case by simp
next
  case (Cons call calls)
  obtain documents g where call: "call = (documents, g)" by (cases call)
  show ?case
  proof (cases "documents = []")
    case True
    then show ?thesis
      using Cons.IH[of st] by (simp add: call predict_invalid_input overlong_call_def)
  next
    case False
    show ?thesis
      using Cons.IH[of "snd (predict self st documents g)"]
      by (auto simp add: call predict_print_log[OF valid False] overlong_call_def False)
  qed
qed

lemma predict_calls_warnings:
  assumes valid: "min_length self \<le> max_length self"
  shows "count_list (events (predict_calls self st calls)) (LoggerWarning m) =
     count_list (events st) (LoggerWarning m) +
     (if m = truncation_warning (model_max_length (summarizer self))
         \<and> truncation_warning (model_max_length (summarizer self)) \<notin> print_log st
         \<and> list_ex (overlong_call self) calls
      then 1 else 0)"
proof (induction calls arbitrary: st)
  case Nil
  then show ?case by simp
next
  case (Cons call calls)
  obtain documents g where call: "call = (documents, g)" by (cases call)
  show ?case
  proof (cases "documents = []")
    case True
    then show ?thesis
      using Cons.IH[of st] by (simp add: call predict_invalid_input overlong_call_def)
  next
    case False
    show ?thesis
      using Cons.IH[of "snd (predict self st documents g)"]
      by (auto simp add: call predict_print_log[OF valid False] predict_events[OF valid False]
            overlong_call_def False)
  qed
qed

lemma predict_result_ignores_tokenizer:
  "fst (predict (self\<lparr>summarizer := (summarizer self)\<lparr>tokenizer := tok, model_max_length := mml\<rparr>\<rparr>)
          st' documents g)
   = fst (predict self st documents g)"
  by (cases g) (simp_all add: predict_def Let_def)

subsection \<open>A call of predict_batch\<close>

lemma predict_batch_valid:
  assumes "min_length self \<le> max_length self" and "\<not> no_documents documents"
  shows "predict_batch self st documents g b =
    (build_result (is_Document (documents ! 0))
       (zip (group_together 0 (batch_number_of_docs self documents g) (batch_summaries self documents g b))
            (group_together 0 (batch_number_of_docs self documents g) (batch_contexts self documents g))),
     emit (SummarizerCall (batch_contexts self documents g))
       (batch_advise (model_max_length (summarizer self))
          (tokenizer (summarizer self) (batch_contexts self documents g))
          (emit (TokenizerCall (batch_contexts self documents g)) st)))"
  using assms
  by (simp add: predict_batch_def Let_def split_beta batch_number_of_docs_def batch_summaries_def
        batch_contexts_def single_of_def batch_size_of_def)

lemma batch_new_events:
  assumes "min_length self \<le> max_length self" and "\<not> no_documents documents"
  shows "new_events st (snd (predict_batch self st documents g b)) =
     TokenizerCall (batch_contexts self documents g) #
     (if too_long (summarizer self) (batch_contexts self documents g)
      then [LoggerWarning (truncation_warning (model_max_length (summarizer self)))] else []) @
     [SummarizerCall (batch_contexts self documents g)]"
  by (simp add: predict_batch_valid[OF assms] new_events_def events_emit batch_advise_effect too_long_def)

lemma batch_summaries_length:
  "one_summary_per_text (summarizer self) \<Longrightarrow>
   length (batch_summaries self documents g b) = length (batch_contexts self documents g)"
  by (simp add: one_summary_per_text_def batch_summaries_def)

lemma batch_sum: "sum_list (batch_number_of_docs self documents g) = length (batch_contexts self documents g)"
  by (simp add: batch_number_of_docs_def batch_contexts_def build_contexts_sum)

lemma batch_contexts_flat:
  "docs \<noteq> [] \<Longrightarrow> batch_contexts self (flat_input docs) g =
     (if single_of self g then [join (separator_for_single_summary self) (map content docs)]
      else map content docs)"
  using first_flat[of docs]
  by (simp add: batch_contexts_def build_contexts_def Let_def doc_contents_flat)

lemma batch_number_flat:
  "docs \<noteq> [] \<Longrightarrow> batch_number_of_docs self (flat_input docs) g =
     map (\<lambda>_. 1) (batch_contexts self (flat_input docs) g)"
  using first_flat[of docs]
  by (simp add: batch_number_of_docs_def batch_contexts_def build_contexts_def Let_def)

lemma batch_contexts_groups:
  "gs \<noteq> [] \<Longrightarrow> batch_contexts self (groups_input gs) g =
     (if single_of self g then map (\<lambda>docs. join (separator_for_single_summary self) (map content docs)) gs
      else concat (map (map content) gs))"
  using first_groups[of gs]
  by (simp add: batch_contexts_def build_contexts_def Let_def nested_groups comp_def)

lemma batch_number_groups:
  "gs \<noteq> [] \<Longrightarrow> batch_number_of_docs self (groups_input gs) g =
     (if single_of self g then map (\<lambda>_. 1) gs else map length gs)"
  using first_groups[of gs]
  by (simp add: batch_number_of_docs_def build_contexts_def Let_def nested_groups comp_def)

lemma batch_result_flat:
  assumes contract: "one_summary_per_text (summarizer self)"
    and valid: "min_length self \<le> max_length self" and ne: "docs \<noteq> []"
  shows "fst (predict_batch self st (flat_input docs) g b) =
     Inr (map (\<lambda>(s, c). RDoc (summary_doc s c))
            (zip (batch_summaries self (flat_input docs) g b) (batch_contexts self (flat_input docs) g)))"
proof -
  let ?d = "flat_input docs"
  have nd: "\<not> no_documents ?d" using ne by (simp add: no_documents_flat)
  have ls: "length (batch_summaries self ?d g b) = length (batch_contexts self ?d g)"
    using contract by (rule batch_summaries_length)
  have sdl: "is_Document (?d ! 0)" using first_flat[OF ne] by simp
  have g1: "group_together 0 (batch_number_of_docs self ?d g) (batch_summaries self ?d g b)
              = map (\<lambda>y. [y]) (batch_summaries self ?d g b)"
    unfolding batch_number_flat[OF ne] by (rule group_together_ones0) (rule ls)
  have g2: "group_together 0 (batch_number_of_docs self ?d g) (batch_contexts self ?d g)
              = map (\<lambda>y. [y]) (batch_contexts self ?d g)"
    unfolding batch_number_flat[OF ne] by (rule group_together_ones0) simp
  show ?thesis
    by (simp add: predict_batch_valid[OF valid nd] sdl g1 g2 zip_singletons build_result_singletons_flat)
qed

lemma batch_result_groups_merged:
  assumes contract: "one_summary_per_text (summarizer self)"
    and valid: "min_length self \<le> max_length self" and nd: "\<not> no_documents (groups_input gs)"
    and single: "single_of self g"
  shows "fst (predict_batch self st (groups_input gs) g b) =
     Inr (map (\<lambda>(s, c). RList [summary_doc s c])
            (zip (batch_summaries self (groups_input gs) g b) (batch_contexts self (groups_input gs) g)))"
proof -
  let ?d = "groups_input gs"
  have ne: "gs \<noteq> []" using nd by (rule no_documents_groups_nonempty)
  have ls: "length (batch_summaries self ?d g b) = length (batch_contexts self ?d g)"
    using contract by (rule batch_summaries_length)
  have lc: "length (batch_contexts self ?d g) = length gs"
    using single by (simp add: batch_contexts_groups[OF ne])
  have sdl: "\<not> is_Document (?d ! 0)" using first_groups[OF ne] by simp
  have n: "batch_number_of_docs self ?d g = map (\<lambda>_. 1) gs"
    using single by (simp add: batch_number_groups[OF ne])
  have g1: "group_together 0 (batch_number_of_docs self ?d g) (batch_summaries self ?d g b)
              = map (\<lambda>y. [y]) (batch_summaries self ?d g b)"
    unfolding n by (rule group_together_ones0) (simp add: ls lc)
  have g2: "group_together 0 (batch_number_of_docs self ?d g) (batch_contexts self ?d g)
              = map (\<lambda>y. [y]) (batch_contexts self ?d g)"
    unfolding n by (rule group_together_ones0) (simp add: lc)
  show ?thesis
    by (simp add: predict_batch_valid[OF valid nd] sdl g1 g2 zip_singletons build_result_singletons_groups)
qed

lemma batch_result_groups:
  assumes valid: "min_length self \<le> max_length self" and nd: "\<not> no_documents (groups_input gs)"
  shows "fst (predict_batch self st (groups_input gs) g b) =
     Inr (map (\<lambda>(s, c). RList (cur_summaries s c))
            (zip (group_together 0 (batch_number_of_docs self (groups_input gs) g)
                    (batch_summaries self (groups_input gs) g b))
                 (group_together 0 (batch_number_of_docs self (groups_input gs) g)
                    (batch_contexts self (groups_input gs) g))))"
proof -
  have ne: "gs \<noteq> []" using nd by (rule no_documents_groups_nonempty)
  have sdl: "\<not> is_Document (groups_input gs ! 0)" using first_groups[OF ne] by simp
  show ?thesis
    by (simp add: predict_batch_valid[OF valid nd] sdl build_result_groups)
qed

lemma batch_flat_merged:
  assumes contract: "one_summary_per_text (summarizer self)"
    and valid: "min_length self \<le> max_length self" and ne: "documents \<noteq> []"
    and single: "single_of self g"
  shows "filter is_SummarizerCall (new_events st (snd (predict_batch self st (flat_input documents) g b)))
           = [SummarizerCall [join (separator_for_single_summary self) (map content documents)]]"
    and "fst (predict_batch self st (flat_input documents) g b)
           = Inr [RDoc (summary_doc (batch_summaries self (flat_input documents) g b ! 0)
                    (join (separator_for_single_summary self) (map content documents)))]"
proof -
  let ?d = "flat_input documents"
  have nd: "\<not> no_documents ?d" using ne by (simp add: no_documents_flat)
  have c: "batch_contexts self ?d g = [join (separator_for_single_summary self) (map content documents)]"
    using single by (simp add: batch_contexts_flat[OF ne])
  have "length (batch_summaries self ?d g b) = Suc 0"
    using batch_summaries_length[OF contract, of ?d g b] by (simp add: c)
  then have s: "batch_summaries self ?d g b = [batch_summaries self ?d g b ! 0]"
    by (rule singleton_nth0)
  show "filter is_SummarizerCall (new_events st (snd (predict_batch self st ?d g b)))
           = [SummarizerCall [join (separator_for_single_summary self) (map content documents)]]"
    by (simp add: batch_new_events[OF valid nd] c)
  have "fst (predict_batch self st ?d g b)
          = Inr (map (\<lambda>(s, c). RDoc (summary_doc s c))
                   (zip (batch_summaries self ?d g b) (batch_contexts self ?d g)))"
    by (rule batch_result_flat[OF contract valid ne])
  also have "\<dots> = Inr [RDoc (summary_doc (batch_summaries self ?d g b ! 0)
                    (join (separator_for_single_summary self) (map content documents)))]"
    unfolding c by (subst s) simp
  finally show "fst (predict_batch self st ?d g b)
           = Inr [RDoc (summary_doc (batch_summaries self ?d g b ! 0)
                    (join (separator_for_single_summary self) (map content documents)))]" .
qed

lemma batch_groups_merged:
  assumes contract: "one_summary_per_text (summarizer self)"
    and valid: "min_length self \<le> max_length self" and nd: "\<not> no_documents (groups_input groups)"
    and single: "single_of self g"
  shows "batch_contexts self (groups_input groups) g
           = map (\<lambda>docs. join (separator_for_single_summary self) (map content docs)) groups"
    and "batch_number_of_docs self (groups_input groups) g = map (\<lambda>_. 1) groups"
    and "filter is_SummarizerCall (new_events st (snd (predict_batch self st (groups_input groups) g b)))
           = [SummarizerCall (map (\<lambda>docs. join (separator_for_single_summary self) (map content docs)) groups)]"
    and "fst (predict_batch self st (groups_input groups) g b)
           = Inr (map (\<lambda>(s, docs). RList [summary_doc s (join (separator_for_single_summary self) (map content docs))])
                    (zip (batch_summaries self (groups_input groups) g b) groups))"
proof -
  let ?d = "groups_input groups"
  have ne: "groups \<noteq> []" using nd by (rule no_documents_groups_nonempty)
  show c: "batch_contexts self ?d g
           = map (\<lambda>docs. join (separator_for_single_summary self) (map content docs)) groups"
    using single by (simp add: batch_contexts_groups[OF ne])
  show "batch_number_of_docs self ?d g = map (\<lambda>_. 1) groups"
    using single by (simp add: batch_number_groups[OF ne])
  show "filter is_SummarizerCall (new_events st (snd (predict_batch self st ?d g b)))
           = [SummarizerCall (map (\<lambda>docs. join (separator_for_single_summary self) (map content docs)) groups)]"
    by (simp add: batch_new_events[OF valid nd] c)
  have "fst (predict_batch self st ?d g b)
          = Inr (map (\<lambda>(s, c). RList [summary_doc s c])
                   (zip (batch_summaries self ?d g b) (batch_contexts self ?d g)))"
    by (rule batch_result_groups_merged[OF contract valid nd single])
  also have "\<dots> = Inr (map (\<lambda>(s, docs). RList [summary_doc s (join (separator_for_single_summary self) (map content docs))])
                    (zip (batch_summaries self ?d g b) groups))"
    unfolding c by (simp add: zip_map2 split_beta)
  finally show "fst (predict_batch self st ?d g b)
           = Inr (map (\<lambda>(s, docs). RList [summary_doc s (join (separator_for_single_summary self) (map content docs))])
                    (zip (batch_summaries self ?d g b) groups))" .
qed

lemma batch_contexts_flat_length:
  "docs \<noteq> [] \<Longrightarrow> length (batch_contexts self (flat_input docs) g)
     = (if single_of self g then 1 else length docs)"
  by (simp add: batch_contexts_flat)

lemma batch_number_groups_length:
  "gs \<noteq> [] \<Longrightarrow> length (batch_number_of_docs self (groups_input gs) g) = length gs"
  by (simp add: batch_number_groups)

lemma batch_number_groups_nth:
  "gs \<noteq> [] \<Longrightarrow> i < length gs \<Longrightarrow>
   batch_number_of_docs self (groups_input gs) g ! i = (if single_of self g then 1 else length (gs ! i))"
  by (simp add: batch_number_groups)

lemma batch_shape_flat:
  assumes contract: "one_summary_per_text (summarizer self)"
    and valid: "min_length self \<le> max_length self" and ne: "documents \<noteq> []"
  shows "\<exists>docs'. fst (predict_batch self st (flat_input documents) g b) = Inr (map RDoc docs')
           \<and> length docs' = (if single_of self g then 1 else length documents)"
proof -
  let ?d = "flat_input documents"
  let ?docs' = "map (\<lambda>(s, c). summary_doc s c) (zip (batch_summaries self ?d g b) (batch_contexts self ?d g))"
  have ls: "length (batch_summaries self ?d g b) = length (batch_contexts self ?d g)"
    using contract by (rule batch_summaries_length)
  have r: "fst (predict_batch self st ?d g b) = Inr (map RDoc ?docs')"
    by (simp add: batch_result_flat[OF contract valid ne] split_beta)
  have l: "length ?docs' = (if single_of self g then 1 else length documents)"
    using ls batch_contexts_flat_length[OF ne, of self g] by simp
  from r l show ?thesis by blast
qed

lemma batch_shape_groups:
  assumes contract: "one_summary_per_text (summarizer self)"
    and valid: "min_length self \<le> max_length self" and nd: "\<not> no_documents (groups_input groups)"
  shows "\<exists>lists. fst (predict_batch self st (groups_input groups) g b) = Inr (map RList lists)
           \<and> length lists = length groups
           \<and> (\<forall>i < length groups. length (lists ! i) = (if single_of self g then 1 else length (groups ! i)))"
proof -
  let ?d = "groups_input groups"
  let ?n = "batch_number_of_docs self ?d g"
  let ?gs = "group_together 0 ?n (batch_summaries self ?d g b)"
  let ?gc = "group_together 0 ?n (batch_contexts self ?d g)"
  let ?lists = "map (\<lambda>(s, c). cur_summaries s c) (zip ?gs ?gc)"
  have ne: "groups \<noteq> []" using nd by (rule no_documents_groups_nonempty)
  have ls: "length (batch_summaries self ?d g b) = length (batch_contexts self ?d g)"
    using contract by (rule batch_summaries_length)
  have ms: "map length ?gs = ?n"
    by (rule map_length_group_together) (simp add: batch_sum ls)
  have mc: "map length ?gc = ?n"
    by (rule map_length_group_together) (simp add: batch_sum)
  have r: "fst (predict_batch self st ?d g b) = Inr (map RList ?lists)"
    by (simp add: batch_result_groups[OF valid nd] split_beta)
  have l: "length ?lists = length groups"
    by (simp add: length_group_together batch_number_groups_length[OF ne])
  have e: "\<forall>i < length groups. length (?lists ! i) = (if single_of self g then 1 else length (groups ! i))"
  proof (intro allI impI)
    fix i assume i: "i < length groups"
    then have i': "i < length ?n" by (simp add: batch_number_groups_length[OF ne])
    have a: "length (?gs ! i) = ?n ! i"
      using i' ms by (metis length_group_together nth_map)
    have c: "length (?gc ! i) = ?n ! i"
      using i' mc by (metis length_group_together nth_map)
    have "?lists ! i = cur_summaries (?gs ! i) (?gc ! i)"
      using i' by (simp add: length_group_together)
    then show "length (?lists ! i) = (if single_of self g then 1 else length (groups ! i))"
      using a c batch_number_groups_nth[OF ne i, of self g] by (simp add: length_cur_summaries)
  qed
  from r l e show ?thesis by blast
qed

lemma batch_print_log:
  assumes "min_length self \<le> max_length self" and "\<not> no_documents documents"
  shows "print_log (snd (predict_batch self st documents g b)) = print_log st"
  by (simp add: predict_batch_valid[OF assms] print_log_emit batch_advise_effect)

lemma batch_result_ignores_tokenizer:
  "fst (predict_batch (self\<lparr>summarizer := (summarizer self)\<lparr>tokenizer := tok, model_max_length := mml\<rparr>\<rparr>)
          st' documents g b)
   = fst (predict_batch self st documents g b)"
  by (cases g; cases b) (simp_all add: predict_batch_def Let_def split_beta)

subsection \<open>The result and the regrouped summaries\<close>

lemma batch_number_first_Document:
  "is_Document (documents ! 0) \<Longrightarrow>
   batch_number_of_docs self documents g = map (\<lambda>_. 1) (batch_contexts self documents g)"
  by (simp add: batch_number_of_docs_def batch_contexts_def build_contexts_def Let_def)

lemma content_summary_doc: "content (summary_doc s c) = s"
  by (simp add: summary_doc_def)

lemma content_cur_summaries:
  "length ss = length cs \<Longrightarrow> map content (cur_summaries ss cs) = ss"
proof (induction ss cs rule: list_induct2)
  case Nil
  then show ?case by (simp add: cur_summaries_def)
next
  case (Cons s ss c cs)
  then show ?case by (simp add: cur_summaries_def content_summary_doc)
qed

lemma context_cur_summaries:
  "length ss = length cs \<Longrightarrow>
   map (\<lambda>d. meta d ''context'') (cur_summaries ss cs) = map (\<lambda>c. Some (VStr c)) cs"
proof (induction ss cs rule: list_induct2)
  case Nil
  then show ?case by (simp add: cur_summaries_def)
next
  case (Cons s ss c cs)
  then show ?case by (simp add: cur_summaries_def context_of_summary_doc)
qed

lemma content_grouped:
  "map length gs = map length gc \<Longrightarrow>
   map (map content) (map (\<lambda>(s, c). cur_summaries s c) (zip gs gc)) = gs"
proof (induction gs arbitrary: gc)
  case Nil
  then show ?case by simp
next
  case (Cons s gs)
  then obtain c gc' where gc: "gc = c # gc'" by (cases gc) auto
  with Cons.prems have l: "length s = length c" and rest: "map length gs = map length gc'" by simp_all
  show ?case using Cons.IH[OF rest] by (simp add: gc content_cur_summaries[OF l])
qed

lemma length_grouped:
  "map length gs = n \<Longrightarrow> map length gc = n \<Longrightarrow>
   map length (map (\<lambda>(s, c). cur_summaries s c) (zip gs gc)) = n"
proof (induction gs arbitrary: gc n)
  case Nil
  then show ?case by simp
next
  case (Cons s gs)
  then obtain c gc' where gc: "gc = c # gc'" by (cases gc) auto
  obtain m n' where n: "n = m # n'" using Cons.prems(1) by (cases n) auto
  from Cons.prems gc n have l: "length s = m" "length c = m"
    and rest: "map length gs = n'" "map length gc' = n'" by simp_all
  show ?case using Cons.IH[OF rest] l by (simp add: gc n length_cur_summaries)
qed

lemma batch_result_first_Document:
  assumes contract: "one_summary_per_text (summarizer self)"
    and valid: "min_length self \<le> max_length self" and nd: "\<not> no_documents documents"
    and sdl: "is_Document (documents ! 0)"
  shows "fst (predict_batch self st documents g b) =
     Inr (map (\<lambda>(s, c). RDoc (summary_doc s c))
            (zip (batch_summaries self documents g b) (batch_contexts self documents g)))"
proof -
  have ls: "length (batch_summaries self documents g b) = length (batch_contexts self documents g)"
    using contract by (rule batch_summaries_length)
  have g1: "group_together 0 (batch_number_of_docs self documents g) (batch_summaries self documents g b)
              = map (\<lambda>y. [y]) (batch_summaries self documents g b)"
    unfolding batch_number_first_Document[OF sdl] by (rule group_together_ones0) (rule ls)
  have g2: "group_together 0 (batch_number_of_docs self documents g) (batch_contexts self documents g)
              = map (\<lambda>y. [y]) (batch_contexts self documents g)"
    unfolding batch_number_first_Document[OF sdl] by (rule group_together_ones0) simp
  show ?thesis
    by (simp add: predict_batch_valid[OF valid nd] sdl g1 g2 zip_singletons build_result_singletons_flat)
qed

lemma batch_result_first_list:
  assumes valid: "min_length self \<le> max_length self" and nd: "\<not> no_documents documents"
    and sdl: "\<not> is_Document (documents ! 0)"
  shows "fst (predict_batch self st documents g b) =
     Inr (map RList (map (\<lambda>(s, c). cur_summaries s c)
            (zip (group_together 0 (batch_number_of_docs self documents g)
                    (batch_summaries self documents g b))
                 (group_together 0 (batch_number_of_docs self documents g)
                    (batch_contexts self documents g)))))"
  by (simp add: predict_batch_valid[OF valid nd] sdl build_result_groups split_beta)

lemma map_content_zip:
  "length ss = length cs \<Longrightarrow> map content (map (\<lambda>(s, c). summary_doc s c) (zip ss cs)) = ss"
  using content_cur_summaries[of ss cs] by (simp add: cur_summaries_def)

lemma sum_take_ones: "i \<le> length xs \<Longrightarrow> sum_list (take i (map (\<lambda>_. 1::nat) xs)) = i"
  by (simp add: take_map sum_list_ones del: One_nat_def)

subsection \<open>Series of calls\<close>

lemma new_events_same: "new_events st st = []"
  by (simp add: new_events_def)

lemma batch_print_log_any:
  assumes valid: "min_length self \<le> max_length self"
  shows "print_log (snd (predict_batch self st items g b)) = print_log st"
proof (cases "no_documents items")
  case True
  then show ?thesis using valid by (simp add: predict_batch_def)
next
  case False
  then show ?thesis by (rule batch_print_log[OF valid])
qed

lemma after_calls_print_log:
  assumes valid: "min_length self \<le> max_length self"
  shows "print_log (after_calls self st calls) =
     (if list_ex (overlong_predict self) calls
      then insert (truncation_warning (model_max_length (summarizer self))) (print_log st)
      else print_log st)"
proof (induction calls arbitrary: st)
  case Nil
  then show ?case by simp
next
  case (Cons call calls)
  show ?case
  proof (cases call)
    case (Predict documents g)
    show ?thesis
    proof (cases "documents = []")
      case True
      then show ?thesis
        using Cons.IH[of st] by (simp add: Predict predict_invalid_input overlong_call_def)
    next
      case False
      show ?thesis
        using Cons.IH[of "snd (predict self st documents g)"]
        by (auto simp add: Predict predict_print_log[OF valid False] overlong_call_def False)
    qed
  next
    case (PredictBatch items g b)
    show ?thesis
      using Cons.IH[of "snd (predict_batch self st items g b)"]
      by (simp add: PredictBatch batch_print_log_any[OF valid])
  qed
qed

lemma logged_by_predict_count:
  assumes valid: "min_length self \<le> max_length self"
  shows "count_list (logged_by_predict self st calls) (LoggerWarning m) =
     (if m = truncation_warning (model_max_length (summarizer self))
         \<and> truncation_warning (model_max_length (summarizer self)) \<notin> print_log st
         \<and> list_ex (overlong_predict self) calls
      then 1 else 0)"
proof (induction calls arbitrary: st)
  case Nil
  then show ?case by simp
next
  case (Cons call calls)
  show ?case
  proof (cases call)
    case (Predict documents g)
    show ?thesis
    proof (cases "documents = []")
      case True
      then show ?thesis
        using Cons.IH[of st]
        by (simp add: Predict predict_invalid_input overlong_call_def new_events_same)
    next
      case False
      show ?thesis
        using Cons.IH[of "snd (predict self st documents g)"]
        by (auto simp add: Predict predict_print_log[OF valid False] predict_new_events[OF valid False]
              overlong_call_def False)
    qed
  next
    case (PredictBatch items g b)
    show ?thesis
      using Cons.IH[of "snd (predict_batch self st items g b)"]
      by (simp add: PredictBatch batch_print_log_any[OF valid])
  qed
qed

subsection \<open>The concrete instance\<close>

lemma example_contract: "one_summary_per_text example_pipeline"
  by (simp add: one_summary_per_text_def example_pipeline_def length_concat comp_def sum_list_ones del: One_nat_def)

lemma example_pipeline_of: "summarizer (example_summarizer mn mx) = example_pipeline"
  by (simp add: example_summarizer_def)

lemma content_plain_doc: "content (plain_doc t) = t"
  by (simp add: plain_doc_def)

lemma content_authored_doc: "content (authored_doc t a) = t"
  by (simp add: authored_doc_def)

lemma example_valid: "min_length (example_summarizer 5 200) \<le> max_length (example_summarizer 5 200)"
  by (simp add: example_summarizer_def)

lemma example_contract_of: "one_summary_per_text (summarizer (example_summarizer mn mx))"
  by (simp add: example_pipeline_of example_contract)

lemma example_single_default: "single_of (example_summarizer mn mx) None = False"
  by (simp add: single_of_def example_summarizer_def)

lemma example_separator: "separator_for_single_summary (example_summarizer mn mx) = '' ''"
  by (simp add: example_summarizer_def)

lemma example_summarizer_list:
  "summarizer_list (summarizer (example_summarizer mn mx)) texts a b c = map (take 2) texts"
  by (simp add: example_summarizer_def example_pipeline_def)

lemma example_summarizer_dataset:
  "summarizer_dataset (summarizer (example_summarizer mn mx)) texts a b c d = map (\<lambda>t. [take 2 t]) texts"
  by (simp add: example_summarizer_def example_pipeline_def)

lemma errors_differ: "min_length_error \<noteq> no_document_error"
  by (simp add: min_length_error_def no_document_error_def)

lemma example_invalid: "min_length (example_summarizer 10 5) > max_length (example_summarizer 10 5)"
  by (simp add: example_summarizer_def)

lemma example_mml: "model_max_length (summarizer (example_summarizer mn mx)) = 4"
  by (simp add: example_summarizer_def example_pipeline_def)

lemma example_too_long:
  "too_long (summarizer (example_summarizer mn mx)) texts = list_ex (\<lambda>t. 4 < int (length t)) texts"
  by (simp add: too_long_def example_summarizer_def example_pipeline_def list_ex_iff)

section \<open>Span counts\<close>

text \<open>
  C1. In a call of \<open>predict_batch\<close> that passes the two guards, with a pipeline that
  returns one summary per text: the sum of \<^verbatim>\<open>number_of_docs\<close> is the length of
  \<^verbatim>\<open>contexts\<close>; the call makes exactly one pipeline call, on \<^verbatim>\<open>contexts\<close>; the
  number of summaries is the length of \<^verbatim>\<open>contexts\<close>; the regrouped summaries are all
  the summaries, in order, in groups of the recorded sizes; and the value returned is
  built from these groups: for a list that starts with a Document it is a list of
  Documents whose contents are the summaries, as many as the sum of the counts, and
  otherwise a list of lists of Documents whose lengths are the recorded counts and whose
  contents, taken together in order, are the summaries.
\<close>

theorem span_counts_match:
  fixes self :: transformers_summarizer and documents :: "item list"
    and g :: "bool option" and b :: "int option"
  defines "number_of_docs \<equiv> batch_number_of_docs self documents g"
    and "contexts \<equiv> batch_contexts self documents g"
    and "summaries \<equiv> batch_summaries self documents g b"
  assumes contract: "one_summary_per_text (summarizer self)"
    and valid: "min_length self \<le> max_length self"
    and nd: "\<not> no_documents documents"
  shows "sum_list number_of_docs = length contexts
       \<and> filter is_SummarizerCall (new_events st (snd (predict_batch self st documents g b)))
           = [SummarizerCall contexts]
       \<and> length summaries = length contexts
       \<and> concat (group_together 0 number_of_docs summaries) = summaries
       \<and> map length (group_together 0 number_of_docs summaries) = number_of_docs
       \<and> fst (predict_batch self st documents g b)
           = build_result (is_Document (documents ! 0))
               (zip (group_together 0 number_of_docs summaries) (group_together 0 number_of_docs contexts))
       \<and> (is_Document (documents ! 0) \<longrightarrow>
            (\<exists>docs. fst (predict_batch self st documents g b) = Inr (map RDoc docs)
               \<and> map content docs = summaries \<and> length docs = sum_list number_of_docs))
       \<and> (\<not> is_Document (documents ! 0) \<longrightarrow>
            (\<exists>lists. fst (predict_batch self st documents g b) = Inr (map RList lists)
               \<and> map length lists = number_of_docs
               \<and> map content (concat lists) = summaries))"
proof -
  let ?n = "batch_number_of_docs self documents g"
  let ?c = "batch_contexts self documents g"
  let ?s = "batch_summaries self documents g b"
  have sum: "sum_list ?n = length ?c" by (rule batch_sum)
  have len: "length ?s = length ?c" using contract by (rule batch_summaries_length)
  have calls: "filter is_SummarizerCall (new_events st (snd (predict_batch self st documents g b)))
           = [SummarizerCall ?c]"
    by (simp add: batch_new_events[OF valid nd])
  have all: "concat (group_together 0 ?n ?s) = ?s"
    by (simp add: concat_group_together batch_sum len)
  have lens: "map length (group_together 0 ?n ?s) = ?n"
    by (rule map_length_group_together) (simp add: batch_sum len)
  have lenc: "map length (group_together 0 ?n ?c) = ?n"
    by (rule map_length_group_together) (simp add: batch_sum)
  have res: "fst (predict_batch self st documents g b)
           = build_result (is_Document (documents ! 0))
               (zip (group_together 0 ?n ?s) (group_together 0 ?n ?c))"
    by (simp add: predict_batch_valid[OF valid nd])
  have flat: "is_Document (documents ! 0) \<longrightarrow>
            (\<exists>docs. fst (predict_batch self st documents g b) = Inr (map RDoc docs)
               \<and> map content docs = ?s \<and> length docs = sum_list ?n)"
  proof
    assume sdl: "is_Document (documents ! 0)"
    let ?docs = "map (\<lambda>(s, c). summary_doc s c) (zip ?s ?c)"
    have r: "fst (predict_batch self st documents g b) = Inr (map RDoc ?docs)"
      by (simp add: batch_result_first_Document[OF contract valid nd sdl] split_beta)
    have c: "map content ?docs = ?s" using len by (rule map_content_zip)
    have l: "length ?docs = sum_list ?n" using len sum by simp
    from r c l show "\<exists>docs. fst (predict_batch self st documents g b) = Inr (map RDoc docs)
               \<and> map content docs = ?s \<and> length docs = sum_list ?n" by blast
  qed
  have nested: "\<not> is_Document (documents ! 0) \<longrightarrow>
            (\<exists>lists. fst (predict_batch self st documents g b) = Inr (map RList lists)
               \<and> map length lists = ?n \<and> map content (concat lists) = ?s)"
  proof
    assume sdl: "\<not> is_Document (documents ! 0)"
    let ?lists = "map (\<lambda>(s, c). cur_summaries s c) (zip (group_together 0 ?n ?s) (group_together 0 ?n ?c))"
    have r: "fst (predict_batch self st documents g b) = Inr (map RList ?lists)"
      by (rule batch_result_first_list[OF valid nd sdl])
    have l: "map length ?lists = ?n" using lens lenc by (rule length_grouped)
    have "map (map content) ?lists = group_together 0 ?n ?s"
      by (rule content_grouped) (simp add: lens lenc)
    then have c: "map content (concat ?lists) = ?s"
      by (simp add: map_concat all)
    from r l c show "\<exists>lists. fst (predict_batch self st documents g b) = Inr (map RList lists)
               \<and> map length lists = ?n \<and> map content (concat lists) = ?s" by blast
  qed
  show ?thesis
    unfolding number_of_docs_def contexts_def summaries_def
    by (intro conjI) (rule sum calls len all lens res flat nested)+
qed

theorem span_counts_match_witness:
  "one_summary_per_text (summarizer (example_summarizer 5 200))
   \<and> min_length (example_summarizer 5 200) \<le> max_length (example_summarizer 5 200)
   \<and> \<not> no_documents (groups_input [[plain_doc ''abc'', plain_doc ''defgh''], [], [plain_doc ''ij'']])
   \<and> batch_number_of_docs (example_summarizer 5 200)
        (groups_input [[plain_doc ''abc'', plain_doc ''defgh''], [], [plain_doc ''ij'']]) None = [2, 0, 1]
   \<and> batch_contexts (example_summarizer 5 200)
        (groups_input [[plain_doc ''abc'', plain_doc ''defgh''], [], [plain_doc ''ij'']]) None
        = [''abc'', ''defgh'', ''ij'']
   \<and> filter is_SummarizerCall (new_events initial_state (snd (predict_batch (example_summarizer 5 200) initial_state
        (groups_input [[plain_doc ''abc'', plain_doc ''defgh''], [], [plain_doc ''ij'']]) None None)))
        = [SummarizerCall [''abc'', ''defgh'', ''ij'']]
   \<and> batch_summaries (example_summarizer 5 200)
        (groups_input [[plain_doc ''abc'', plain_doc ''defgh''], [], [plain_doc ''ij'']]) None None
        = [''ab'', ''de'', ''ij'']
   \<and> group_together 0 [2, 0, 1] [''ab'', ''de'', ''ij''] = [[''ab'', ''de''], [], [''ij'']]
   \<and> fst (predict_batch (example_summarizer 5 200) initial_state
        (groups_input [[plain_doc ''abc'', plain_doc ''defgh''], [], [plain_doc ''ij'']]) None None)
       = Inr [RList [summary_doc ''ab'' ''abc'', summary_doc ''de'' ''defgh''],
              RList [],
              RList [summary_doc ''ij'' ''ij'']]"
proof -
  let ?self = "example_summarizer 5 200"
  let ?docs = "groups_input [[plain_doc ''abc'', plain_doc ''defgh''], [], [plain_doc ''ij'']]"
  have h1: "one_summary_per_text (summarizer ?self)" by (rule example_contract_of)
  have h2: "min_length ?self \<le> max_length ?self" by (rule example_valid)
  have h3: "\<not> no_documents ?docs" by (simp add: no_documents_groups)
  have gne: "[[plain_doc ''abc'', plain_doc ''defgh''], [], [plain_doc ''ij'']] \<noteq> []" by simp
  have n: "batch_number_of_docs ?self ?docs None = [2, 0, 1]"
    by (simp add: batch_number_groups[OF gne] example_single_default)
  have c: "batch_contexts ?self ?docs None = [''abc'', ''defgh'', ''ij'']"
    by (simp add: batch_contexts_groups[OF gne] example_single_default content_plain_doc)
  have s: "batch_summaries ?self ?docs None None = [''ab'', ''de'', ''ij'']"
    by (simp add: batch_summaries_def c example_summarizer_dataset)
  have sdl: "is_Document (?docs ! 0) = False" using first_groups[OF gne] by simp
  have gt: "group_together 0 [2, 0, 1] [''ab'', ''de'', ''ij''] = [[''ab'', ''de''], [], [''ij'']]"
    by (simp add: Let_def slice_def)
  have gc: "group_together 0 [2, 0, 1] [''abc'', ''defgh'', ''ij''] = [[''abc'', ''defgh''], [], [''ij'']]"
    by (simp add: Let_def slice_def)
  note inst = span_counts_match[OF h1 h2 h3, of None initial_state None, unfolded n c s sdl gt gc]
  note calls = inst[THEN conjunct2, THEN conjunct1]
  note res = inst[THEN conjunct2, THEN conjunct2, THEN conjunct2, THEN conjunct2, THEN conjunct2, THEN conjunct1]
  have ev: "build_result False (zip [[''ab'', ''de''], [], [''ij'']] [[''abc'', ''defgh''], [], [''ij'']])
      = Inr [RList [summary_doc ''ab'' ''abc'', summary_doc ''de'' ''defgh''],
              RList [],
              RList [summary_doc ''ij'' ''ij'']]"
    by (simp add: cur_summaries_def)
  note r = res[unfolded ev]
  show ?thesis by (intro conjI) (rule h1 h2 h3 n c calls s gt r)+
qed

section \<open>Regrouping\<close>

text \<open>
  C2. In a call of \<open>predict_batch\<close> that passes the two guards, with a pipeline that
  returns one summary per text, the result is built from the two regrouped lists, which
  have one group per count, and for every group \<open>i\<close>, empty or not, with \<open>offset\<close> the sum
  of the counts of the groups before it: the bounds \<open>offset + n ! i\<close> lie within the flat
  lists; group \<open>i\<close> of the summaries is the slice \<open>[offset, offset + n ! i)\<close> of the flat
  summaries, group \<open>i\<close> of the texts is the slice of the flat texts with the same bounds,
  both have \<open>n ! i\<close> elements, and so has the list of Documents built from them; for
  every \<open>k < n ! i\<close> their \<open>k\<close>-th elements are the flat elements at \<open>offset + k\<close>, and
  the \<open>k\<close>-th Document built for the group pairs the \<open>k\<close>-th summary of the group with the
  \<open>k\<close>-th text of the group: its content is that summary and its \<open>context\<close> is that
  text. For a list that starts with a Document every count is 1, the offset of group
  \<open>i\<close> is \<open>i\<close>, and entry \<open>i\<close> of the value returned is the Document of summary \<open>i\<close> and
  text \<open>i\<close>; otherwise entry \<open>i\<close> of the value returned is the list of the Documents built
  for group \<open>i\<close>.
\<close>

theorem regrouping_by_cumulative_boundaries:
  fixes self :: transformers_summarizer and documents :: "item list"
    and g :: "bool option" and b :: "int option" and i :: nat
  defines "n \<equiv> batch_number_of_docs self documents g"
    and "summaries \<equiv> batch_summaries self documents g b"
    and "contexts \<equiv> batch_contexts self documents g"
  defines "grouped_summaries \<equiv> group_together 0 n summaries"
    and "grouped_contexts \<equiv> group_together 0 n contexts"
    and "offset \<equiv> sum_list (take i n)"
  assumes contract: "one_summary_per_text (summarizer self)"
    and valid: "min_length self \<le> max_length self" "\<not> no_documents documents"
    and i: "i < length n"
  shows "fst (predict_batch self st documents g b) =
           build_result (is_Document (documents ! 0)) (zip grouped_summaries grouped_contexts)
       \<and> length grouped_summaries = length n
       \<and> length grouped_contexts = length n
       \<and> offset + n ! i \<le> length summaries
       \<and> offset + n ! i \<le> length contexts
       \<and> grouped_summaries ! i = slice summaries offset (offset + n ! i)
       \<and> grouped_contexts ! i = slice contexts offset (offset + n ! i)
       \<and> length (grouped_summaries ! i) = n ! i
       \<and> length (grouped_contexts ! i) = n ! i
       \<and> length (cur_summaries (grouped_summaries ! i) (grouped_contexts ! i)) = n ! i
       \<and> (\<forall>k < n ! i.
              grouped_summaries ! i ! k = summaries ! (offset + k)
            \<and> grouped_contexts ! i ! k = contexts ! (offset + k)
            \<and> cur_summaries (grouped_summaries ! i) (grouped_contexts ! i) ! k
                = summary_doc (summaries ! (offset + k)) (contexts ! (offset + k))
            \<and> content (cur_summaries (grouped_summaries ! i) (grouped_contexts ! i) ! k)
                = summaries ! (offset + k)
            \<and> meta (cur_summaries (grouped_summaries ! i) (grouped_contexts ! i) ! k) ''context''
                = Some (VStr (contexts ! (offset + k))))
       \<and> (is_Document (documents ! 0) \<longrightarrow>
             offset = i \<and> n ! i = 1
           \<and> (\<exists>result. fst (predict_batch self st documents g b) = Inr result
                 \<and> length result = length n
                 \<and> result ! i = RDoc (summary_doc (summaries ! i) (contexts ! i))))
       \<and> (\<not> is_Document (documents ! 0) \<longrightarrow>
             (\<exists>result. fst (predict_batch self st documents g b) = Inr result
                 \<and> length result = length n
                 \<and> result ! i = RList (cur_summaries (grouped_summaries ! i) (grouped_contexts ! i))))"
proof -
  let ?n = "batch_number_of_docs self documents g"
  let ?s = "batch_summaries self documents g b"
  let ?c = "batch_contexts self documents g"
  let ?off = "sum_list (take i ?n)"
  let ?gs = "group_together 0 ?n ?s"
  let ?gc = "group_together 0 ?n ?c"
  have i': "i < length ?n" using i by (simp add: n_def)
  have lc: "sum_list ?n = length ?c" by (rule batch_sum)
  have ls: "length ?s = length ?c" using contract by (rule batch_summaries_length)
  have bound: "?off + ?n ! i \<le> sum_list ?n" using i' by (rule offset_bound)
  have bc: "?off + ?n ! i \<le> length ?c" using bound lc by simp
  have bs: "?off + ?n ! i \<le> length ?s" using bc ls by simp
  have r: "fst (predict_batch self st documents g b) =
           build_result (is_Document (documents ! 0)) (zip ?gs ?gc)"
    by (simp add: predict_batch_valid[OF valid])
  have l1: "length ?gs = length ?n" by (rule length_group_together)
  have l2: "length ?gc = length ?n" by (rule length_group_together)
  have gs: "?gs ! i = slice ?s ?off (?off + ?n ! i)"
    using i' by (rule group_together_nth0)
  have gc: "?gc ! i = slice ?c ?off (?off + ?n ! i)"
    using i' by (rule group_together_nth0)
  have lgs: "length (?gs ! i) = ?n ! i"
    using bs by (simp add: gs length_slice)
  have lgc: "length (?gc ! i) = ?n ! i"
    using bc by (simp add: gc length_slice)
  have lcur: "length (cur_summaries (?gs ! i) (?gc ! i)) = ?n ! i"
    by (simp add: length_cur_summaries lgs lgc)
  have elems: "\<forall>k < ?n ! i.
              ?gs ! i ! k = ?s ! (?off + k)
            \<and> ?gc ! i ! k = ?c ! (?off + k)
            \<and> cur_summaries (?gs ! i) (?gc ! i) ! k = summary_doc (?s ! (?off + k)) (?c ! (?off + k))
            \<and> content (cur_summaries (?gs ! i) (?gc ! i) ! k) = ?s ! (?off + k)
            \<and> meta (cur_summaries (?gs ! i) (?gc ! i) ! k) ''context'' = Some (VStr (?c ! (?off + k)))"
  proof (intro allI impI)
    fix k assume k: "k < ?n ! i"
    have ks: "?gs ! i ! k = ?s ! (?off + k)"
      using bs k by (simp add: gs slice_nth)
    have kc: "?gc ! i ! k = ?c ! (?off + k)"
      using bc k by (simp add: gc slice_nth)
    have d: "cur_summaries (?gs ! i) (?gc ! i) ! k = summary_doc (?s ! (?off + k)) (?c ! (?off + k))"
      using k lgs lgc by (simp add: cur_summaries_nth ks kc)
    show "?gs ! i ! k = ?s ! (?off + k)
            \<and> ?gc ! i ! k = ?c ! (?off + k)
            \<and> cur_summaries (?gs ! i) (?gc ! i) ! k = summary_doc (?s ! (?off + k)) (?c ! (?off + k))
            \<and> content (cur_summaries (?gs ! i) (?gc ! i) ! k) = ?s ! (?off + k)
            \<and> meta (cur_summaries (?gs ! i) (?gc ! i) ! k) ''context'' = Some (VStr (?c ! (?off + k)))"
      using ks kc d by (simp add: content_summary_doc context_of_summary_doc)
  qed
  have flat: "is_Document (documents ! 0) \<longrightarrow>
             ?off = i \<and> ?n ! i = 1
           \<and> (\<exists>result. fst (predict_batch self st documents g b) = Inr result
                 \<and> length result = length ?n
                 \<and> result ! i = RDoc (summary_doc (?s ! i) (?c ! i)))"
  proof
    assume sdl: "is_Document (documents ! 0)"
    have n1: "?n = map (\<lambda>_. 1) ?c" using sdl by (rule batch_number_first_Document)
    have ic: "i < length ?c" using i' by (simp add: n1)
    have off: "?off = i" using ic by (simp only: n1) (simp add: sum_take_ones del: One_nat_def)
    have ni: "?n ! i = 1" using ic by (simp only: n1) simp
    let ?result = "map (\<lambda>(s, c). RDoc (summary_doc s c)) (zip ?s ?c)"
    have rr: "fst (predict_batch self st documents g b) = Inr ?result"
      by (rule batch_result_first_Document[OF contract valid sdl])
    have lr: "length ?result = length ?n" using ls by (simp add: n1)
    have ri: "?result ! i = RDoc (summary_doc (?s ! i) (?c ! i))" using ic ls by simp
    from rr lr ri have "\<exists>result. fst (predict_batch self st documents g b) = Inr result
                 \<and> length result = length ?n
                 \<and> result ! i = RDoc (summary_doc (?s ! i) (?c ! i))" by blast
    with off ni show "?off = i \<and> ?n ! i = 1
           \<and> (\<exists>result. fst (predict_batch self st documents g b) = Inr result
                 \<and> length result = length ?n
                 \<and> result ! i = RDoc (summary_doc (?s ! i) (?c ! i)))" by blast
  qed
  have nested: "\<not> is_Document (documents ! 0) \<longrightarrow>
             (\<exists>result. fst (predict_batch self st documents g b) = Inr result
                 \<and> length result = length ?n
                 \<and> result ! i = RList (cur_summaries (?gs ! i) (?gc ! i)))"
  proof
    assume sdl: "\<not> is_Document (documents ! 0)"
    let ?result = "map RList (map (\<lambda>(s, c). cur_summaries s c) (zip ?gs ?gc))"
    have rr: "fst (predict_batch self st documents g b) = Inr ?result"
      by (rule batch_result_first_list[OF valid sdl])
    have lr: "length ?result = length ?n" by (simp add: l1 l2)
    have ri: "?result ! i = RList (cur_summaries (?gs ! i) (?gc ! i))"
      using i' by (simp add: l1 l2)
    from rr lr ri show "\<exists>result. fst (predict_batch self st documents g b) = Inr result
                 \<and> length result = length ?n
                 \<and> result ! i = RList (cur_summaries (?gs ! i) (?gc ! i))" by blast
  qed
  show ?thesis
    unfolding grouped_summaries_def grouped_contexts_def offset_def n_def summaries_def contexts_def
    by (intro conjI) (rule r l1 l2 bs bc gs gc lgs lgc lcur elems flat nested)+
qed

theorem regrouping_by_cumulative_boundaries_witness:
  "one_summary_per_text (summarizer (example_summarizer 5 200))
   \<and> min_length (example_summarizer 5 200) \<le> max_length (example_summarizer 5 200)
   \<and> \<not> no_documents (groups_input [[plain_doc ''abc'', plain_doc ''defgh''], [], [plain_doc ''ij'']])
   \<and> 1 < length (batch_number_of_docs (example_summarizer 5 200)
        (groups_input [[plain_doc ''abc'', plain_doc ''defgh''], [], [plain_doc ''ij'']]) None)
   \<and> 2 < length (batch_number_of_docs (example_summarizer 5 200)
        (groups_input [[plain_doc ''abc'', plain_doc ''defgh''], [], [plain_doc ''ij'']]) None)
   \<and> batch_number_of_docs (example_summarizer 5 200)
        (groups_input [[plain_doc ''abc'', plain_doc ''defgh''], [], [plain_doc ''ij'']]) None = [2, 0, 1]
   \<and> fst (predict_batch (example_summarizer 5 200) initial_state
        (groups_input [[plain_doc ''abc'', plain_doc ''defgh''], [], [plain_doc ''ij'']]) None None)
       = Inr [RList [summary_doc ''ab'' ''abc'', summary_doc ''de'' ''defgh''],
              RList [],
              RList [summary_doc ''ij'' ''ij'']]
   \<and> group_together 0 [2, 0, 1] [''ab'', ''de'', ''ij''] ! 1 = slice [''ab'', ''de'', ''ij''] 2 2
   \<and> group_together 0 [2, 0, 1] [''ab'', ''de'', ''ij''] ! 1 = []
   \<and> group_together 0 [2, 0, 1] [''abc'', ''defgh'', ''ij''] ! 1 = []
   \<and> group_together 0 [2, 0, 1] [''ab'', ''de'', ''ij''] ! 2 = slice [''ab'', ''de'', ''ij''] 2 3
   \<and> group_together 0 [2, 0, 1] [''ab'', ''de'', ''ij''] ! 2 = [''ij'']
   \<and> group_together 0 [2, 0, 1] [''abc'', ''defgh'', ''ij''] ! 2 = [''ij'']"
proof -
  let ?self = "example_summarizer 5 200"
  let ?docs = "groups_input [[plain_doc ''abc'', plain_doc ''defgh''], [], [plain_doc ''ij'']]"
  have h1: "one_summary_per_text (summarizer ?self)" by (rule example_contract_of)
  have h2: "min_length ?self \<le> max_length ?self" by (rule example_valid)
  have h3: "\<not> no_documents ?docs" by (simp add: no_documents_groups)
  have gne: "[[plain_doc ''abc'', plain_doc ''defgh''], [], [plain_doc ''ij'']] \<noteq> []" by simp
  have n: "batch_number_of_docs ?self ?docs None = [2, 0, 1]"
    by (simp add: batch_number_groups[OF gne] example_single_default)
  have c: "batch_contexts ?self ?docs None = [''abc'', ''defgh'', ''ij'']"
    by (simp add: batch_contexts_groups[OF gne] example_single_default content_plain_doc)
  have s: "batch_summaries ?self ?docs None None = [''ab'', ''de'', ''ij'']"
    by (simp add: batch_summaries_def c example_summarizer_dataset)
  have h4: "1 < length (batch_number_of_docs ?self ?docs None)" by (simp add: n)
  have h5: "2 < length (batch_number_of_docs ?self ?docs None)" by (simp add: n)
  have sdl: "is_Document (?docs ! 0) = False" using first_groups[OF gne] by simp
  have o1: "sum_list (take 1 [2, 0, 1::nat]) = 2" by simp
  have o2: "sum_list (take 2 [2, 0, 1::nat]) = 2" by (simp add: numeral_2_eq_2)
  have e1: "(2::nat) + [2, 0, 1] ! 1 = 2" by simp
  have e2: "(2::nat) + [2, 0, 1] ! 2 = 3" by simp
  note inst1 = regrouping_by_cumulative_boundaries[OF h1 h2 h3 h4, of initial_state None,
                 unfolded n c s sdl o1 e1]
  note inst2 = regrouping_by_cumulative_boundaries[OF h1 h2 h3 h5, of initial_state None,
                 unfolded n c s sdl o2 e2]
  have ev: "build_result False (zip (group_together 0 [2, 0, 1] [''ab'', ''de'', ''ij''])
                                     (group_together 0 [2, 0, 1] [''abc'', ''defgh'', ''ij'']))
            = Inr [RList [summary_doc ''ab'' ''abc'', summary_doc ''de'' ''defgh''],
                   RList [],
                   RList [summary_doc ''ij'' ''ij'']]"
    by (simp add: Let_def slice_def cur_summaries_def)
  note r = inst1[THEN conjunct1, unfolded ev]
  have a1: "group_together 0 [2, 0, 1] [''ab'', ''de'', ''ij''] ! 1 = slice [''ab'', ''de'', ''ij''] 2 2"
    using inst1 by (elim conjE)
  have a2: "group_together 0 [2, 0, 1] [''ab'', ''de'', ''ij''] ! 2 = slice [''ab'', ''de'', ''ij''] 2 3"
    using inst2 by (elim conjE)
  have b1: "group_together 0 [2, 0, 1] [''ab'', ''de'', ''ij''] ! 1 = []"
    by (simp add: a1 slice_def)
  have b2: "group_together 0 [2, 0, 1] [''abc'', ''defgh'', ''ij''] ! 1 = []"
    by (simp add: Let_def slice_def)
  have b3: "group_together 0 [2, 0, 1] [''ab'', ''de'', ''ij''] ! 2 = [''ij'']"
    by (simp add: a2 slice_def)
  have b4: "group_together 0 [2, 0, 1] [''abc'', ''defgh'', ''ij''] ! 2 = [''ij'']"
    by (simp add: Let_def slice_def)
  show ?thesis by (intro conjI) (rule h1 h2 h3 h4 h5 n r a1 b1 b2 a2 b3 b4)+
qed

section \<open>The number of results of predict\<close>

text \<open>
  C3. For a non-empty list of Documents, a configuration with \<open>min_length \<le> max_length\<close>
  and a pipeline that returns one summary per text, \<open>predict\<close> returns a list of
  Documents; its length is the number of input documents when
  \<^verbatim>\<open>generate_single_summary\<close> is false and 1 when it is true.
\<close>

theorem predict_result_length:
  assumes "one_summary_per_text (summarizer self)"
    and "min_length self \<le> max_length self"
    and "documents \<noteq> []"
  shows "\<exists>result. fst (predict self st documents g) = Inr result
           \<and> length result = (if single_of self g then 1 else length documents)"
  using predict_summaries_length[OF assms(1), of documents g] predict_contexts_length[of self documents g]
  by (simp add: predict_valid[OF assms(2,3)])

theorem predict_result_length_witness:
  "one_summary_per_text (summarizer (example_summarizer 5 200))
   \<and> min_length (example_summarizer 5 200) \<le> max_length (example_summarizer 5 200)
   \<and> [authored_doc ''abc'' ''ann'', plain_doc ''de''] \<noteq> []
   \<and> (\<exists>result. fst (predict (example_summarizer 5 200) initial_state
                      [authored_doc ''abc'' ''ann'', plain_doc ''de''] None) = Inr result
         \<and> length result = 2)
   \<and> (\<exists>result. fst (predict (example_summarizer 5 200) initial_state
                      [authored_doc ''abc'' ''ann'', plain_doc ''de''] (Some True)) = Inr result
         \<and> length result = 1)
   \<and> fst (predict (example_summarizer 5 200) initial_state
            [authored_doc ''abc'' ''ann'', plain_doc ''de''] (Some True))
       = Inr [summary_doc ''ab'' ''abc de'']"
proof -
  let ?self = "example_summarizer 5 200"
  let ?docs = "[authored_doc ''abc'' ''ann'', plain_doc ''de'']"
  have h1: "one_summary_per_text (summarizer ?self)"
    by (simp add: example_pipeline_of example_contract)
  have h2: "min_length ?self \<le> max_length ?self"
    by (simp add: example_summarizer_def)
  have h3: "?docs \<noteq> []" by simp
  have s1: "single_of ?self None = False" by (simp add: single_of_def example_summarizer_def)
  have s2: "single_of ?self (Some True) = True" by (simp add: single_of_def)
  have a: "\<exists>result. fst (predict ?self initial_state ?docs None) = Inr result \<and> length result = 2"
    using predict_result_length[OF h1 h2 h3, of initial_state None] by (simp add: s1 numeral_2_eq_2)
  have b: "\<exists>result. fst (predict ?self initial_state ?docs (Some True)) = Inr result \<and> length result = 1"
    using predict_result_length[OF h1 h2 h3, of initial_state "Some True"] by (simp add: s2)
  have c: "fst (predict ?self initial_state ?docs (Some True)) = Inr [summary_doc ''ab'' ''abc de'']"
    by (simp add: predict_valid[OF h2 h3] s2 predict_contexts_def predict_summaries_def)
       (simp add: example_summarizer_def example_pipeline_def authored_doc_def plain_doc_def)
  show ?thesis using h1 h2 h3 a b c by blast
qed

section \<open>Merged mode\<close>

text \<open>
  C4. With \<^verbatim>\<open>generate_single_summary\<close> true, \<open>min_length \<le> max_length\<close> and a pipeline
  that returns one summary per text: for a non-empty list of documents, \<open>predict\<close> and
  \<open>predict_batch\<close> (on the flat list) make one pipeline call, on the single text that
  joins the documents' contents in input order with the separator, and return one
  Document, whose metadata is \<open>context\<close> = that text; for a list of groups with at least
  one document, \<open>predict_batch\<close> gives the pipeline one text per group, the join of that
  group's contents, records the count 1 for every group, and returns for each group
  a list of one Document, that of its summary, with \<open>context\<close> = the group's joined text. For two documents
  with the contents \<open>A. B. C.\<close> and \<open>D. E. F.\<close> and the separator of one space, the one
  text is \<open>A. B. C. D. E. F.\<close> and it is the \<open>context\<close> of the one result.
\<close>

theorem merged_mode_single_span:
  fixes self :: transformers_summarizer and documents :: "document list"
    and groups :: "document list list"
  defines "sep \<equiv> separator_for_single_summary self"
  assumes contract: "one_summary_per_text (summarizer self)"
    and valid: "min_length self \<le> max_length self"
    and single: "single_of self g"
  shows "(documents \<noteq> [] \<longrightarrow>
            filter is_SummarizerCall (new_events st (snd (predict self st documents g)))
              = [SummarizerCall [join sep (map content documents)]]
          \<and> fst (predict self st documents g)
              = Inr [summary_doc (predict_summaries self documents g ! 0) (join sep (map content documents))]
          \<and> filter is_SummarizerCall (new_events st (snd (predict_batch self st (flat_input documents) g b)))
              = [SummarizerCall [join sep (map content documents)]]
          \<and> fst (predict_batch self st (flat_input documents) g b)
              = Inr [RDoc (summary_doc (batch_summaries self (flat_input documents) g b ! 0)
                             (join sep (map content documents)))])
       \<and> (\<not> no_documents (groups_input groups) \<longrightarrow>
            batch_contexts self (groups_input groups) g = map (\<lambda>docs. join sep (map content docs)) groups
          \<and> batch_number_of_docs self (groups_input groups) g = map (\<lambda>_. 1) groups
          \<and> filter is_SummarizerCall (new_events st (snd (predict_batch self st (groups_input groups) g b)))
              = [SummarizerCall (map (\<lambda>docs. join sep (map content docs)) groups)]
          \<and> fst (predict_batch self st (groups_input groups) g b)
              = Inr (map (\<lambda>(s, docs). RList [summary_doc s (join sep (map content docs))])
                       (zip (batch_summaries self (groups_input groups) g b) groups)))
       \<and> (sep = '' '' \<and> map content documents = [''A. B. C.'', ''D. E. F.''] \<longrightarrow>
            filter is_SummarizerCall (new_events st (snd (predict self st documents g)))
              = [SummarizerCall [''A. B. C. D. E. F.'']]
          \<and> fst (predict self st documents g)
              = Inr [summary_doc (predict_summaries self documents g ! 0) ''A. B. C. D. E. F.'']
          \<and> filter is_SummarizerCall (new_events st (snd (predict_batch self st (flat_input documents) g b)))
              = [SummarizerCall [''A. B. C. D. E. F.'']]
          \<and> fst (predict_batch self st (flat_input documents) g b)
              = Inr [RDoc (summary_doc (batch_summaries self (flat_input documents) g b ! 0)
                             ''A. B. C. D. E. F.'')])
       \<and> meta (summary_doc summary ''A. B. C. D. E. F.'') ''context'' = Some (VStr ''A. B. C. D. E. F.'')"
proof -
  have flat: "documents \<noteq> [] \<longrightarrow>
            filter is_SummarizerCall (new_events st (snd (predict self st documents g)))
              = [SummarizerCall [join sep (map content documents)]]
          \<and> fst (predict self st documents g)
              = Inr [summary_doc (predict_summaries self documents g ! 0) (join sep (map content documents))]
          \<and> filter is_SummarizerCall (new_events st (snd (predict_batch self st (flat_input documents) g b)))
              = [SummarizerCall [join sep (map content documents)]]
          \<and> fst (predict_batch self st (flat_input documents) g b)
              = Inr [RDoc (summary_doc (batch_summaries self (flat_input documents) g b ! 0)
                             (join sep (map content documents)))]"
    unfolding sep_def
    by (intro impI conjI)
       (rule predict_merged[OF contract valid _ single] batch_flat_merged[OF contract valid _ single],
        assumption)+
  have nested: "\<not> no_documents (groups_input groups) \<longrightarrow>
            batch_contexts self (groups_input groups) g = map (\<lambda>docs. join sep (map content docs)) groups
          \<and> batch_number_of_docs self (groups_input groups) g = map (\<lambda>_. 1) groups
          \<and> filter is_SummarizerCall (new_events st (snd (predict_batch self st (groups_input groups) g b)))
              = [SummarizerCall (map (\<lambda>docs. join sep (map content docs)) groups)]
          \<and> fst (predict_batch self st (groups_input groups) g b)
              = Inr (map (\<lambda>(s, docs). RList [summary_doc s (join sep (map content docs))])
                       (zip (batch_summaries self (groups_input groups) g b) groups))"
    unfolding sep_def
    by (intro impI conjI) (rule batch_groups_merged[OF contract valid _ single], assumption)+
  have example: "sep = '' '' \<and> map content documents = [''A. B. C.'', ''D. E. F.''] \<longrightarrow>
            filter is_SummarizerCall (new_events st (snd (predict self st documents g)))
              = [SummarizerCall [''A. B. C. D. E. F.'']]
          \<and> fst (predict self st documents g)
              = Inr [summary_doc (predict_summaries self documents g ! 0) ''A. B. C. D. E. F.'']
          \<and> filter is_SummarizerCall (new_events st (snd (predict_batch self st (flat_input documents) g b)))
              = [SummarizerCall [''A. B. C. D. E. F.'']]
          \<and> fst (predict_batch self st (flat_input documents) g b)
              = Inr [RDoc (summary_doc (batch_summaries self (flat_input documents) g b ! 0)
                             ''A. B. C. D. E. F.'')]"
  proof
    assume a: "sep = '' '' \<and> map content documents = [''A. B. C.'', ''D. E. F.'']"
    then have ne: "documents \<noteq> []" by auto
    have j: "join sep (map content documents) = ''A. B. C. D. E. F.''"
      using a join_example by simp
    show "filter is_SummarizerCall (new_events st (snd (predict self st documents g)))
              = [SummarizerCall [''A. B. C. D. E. F.'']]
          \<and> fst (predict self st documents g)
              = Inr [summary_doc (predict_summaries self documents g ! 0) ''A. B. C. D. E. F.'']
          \<and> filter is_SummarizerCall (new_events st (snd (predict_batch self st (flat_input documents) g b)))
              = [SummarizerCall [''A. B. C. D. E. F.'']]
          \<and> fst (predict_batch self st (flat_input documents) g b)
              = Inr [RDoc (summary_doc (batch_summaries self (flat_input documents) g b ! 0)
                             ''A. B. C. D. E. F.'')]"
      by (rule flat[THEN mp, OF ne, unfolded j])
  qed
  show ?thesis
    by (intro conjI) (rule flat nested example context_of_summary_doc)+
qed

theorem merged_mode_single_span_witness:
  "one_summary_per_text (summarizer (example_summarizer 5 200))
   \<and> min_length (example_summarizer 5 200) \<le> max_length (example_summarizer 5 200)
   \<and> single_of (example_summarizer 5 200) (Some True)
   \<and> [plain_doc ''A. B. C.'', plain_doc ''D. E. F.''] \<noteq> []
   \<and> \<not> no_documents (groups_input [[plain_doc ''A. B. C.'', plain_doc ''D. E. F.''], [plain_doc ''xyz'']])
   \<and> separator_for_single_summary (example_summarizer 5 200) = '' ''
   \<and> map content [plain_doc ''A. B. C.'', plain_doc ''D. E. F.''] = [''A. B. C.'', ''D. E. F.'']
   \<and> filter is_SummarizerCall (new_events initial_state (snd (predict (example_summarizer 5 200) initial_state
         [plain_doc ''A. B. C.'', plain_doc ''D. E. F.''] (Some True))))
       = [SummarizerCall [''A. B. C. D. E. F.'']]
   \<and> fst (predict (example_summarizer 5 200) initial_state
         [plain_doc ''A. B. C.'', plain_doc ''D. E. F.''] (Some True))
       = Inr [summary_doc ''A.'' ''A. B. C. D. E. F.'']
   \<and> fst (predict_batch (example_summarizer 5 200) initial_state
         (flat_input [plain_doc ''A. B. C.'', plain_doc ''D. E. F.'']) (Some True) None)
       = Inr [RDoc (summary_doc ''A.'' ''A. B. C. D. E. F.'')]
   \<and> batch_contexts (example_summarizer 5 200)
         (groups_input [[plain_doc ''A. B. C.'', plain_doc ''D. E. F.''], [plain_doc ''xyz'']]) (Some True)
       = [''A. B. C. D. E. F.'', ''xyz'']"
proof -
  let ?self = "example_summarizer 5 200"
  let ?docs = "[plain_doc ''A. B. C.'', plain_doc ''D. E. F.'']"
  let ?groups = "[[plain_doc ''A. B. C.'', plain_doc ''D. E. F.''], [plain_doc ''xyz'']]"
  have h1: "one_summary_per_text (summarizer ?self)"
    by (simp add: example_pipeline_of example_contract)
  have h2: "min_length ?self \<le> max_length ?self"
    by (simp add: example_summarizer_def)
  have h3: "single_of ?self (Some True)" by (simp add: single_of_def)
  have h4: "?docs \<noteq> []" by simp
  have h5: "\<not> no_documents (groups_input ?groups)" by (simp add: no_documents_groups)
  have h6: "separator_for_single_summary ?self = '' ''" by (simp add: example_summarizer_def)
  have h7: "map content ?docs = [''A. B. C.'', ''D. E. F.'']" by (simp add: content_plain_doc)
  note inst = merged_mode_single_span[OF h1 h2 h3, of ?docs initial_state None ?groups]
  have s1: "predict_summaries ?self ?docs (Some True) ! 0 = ''A.''"
    by (simp add: predict_summaries_def predict_contexts_def h3 h6 content_plain_doc)
       (simp add: example_summarizer_def example_pipeline_def)
  have bc: "batch_contexts ?self (flat_input ?docs) (Some True) = [''A. B. C. D. E. F.'']"
    by (simp add: batch_contexts_flat[OF h4] h3 h6 content_plain_doc)
  have s2: "batch_summaries ?self (flat_input ?docs) (Some True) None ! 0 = ''A.''"
    by (simp add: batch_summaries_def bc) (simp add: example_summarizer_def example_pipeline_def)
  have j2: "map (\<lambda>docs. join (separator_for_single_summary ?self) (map content docs)) ?groups
              = [''A. B. C. D. E. F.'', ''xyz'']"
    by (simp add: h6 content_plain_doc)
  note ex = inst[THEN conjunct2, THEN conjunct2, THEN conjunct1, THEN mp, OF conjI[OF h6 h7]]
  note gr = inst[THEN conjunct2, THEN conjunct1, THEN mp, OF h5]
  note a = ex[THEN conjunct1]
  note b = ex[THEN conjunct2, THEN conjunct1, unfolded s1]
  note c = ex[THEN conjunct2, THEN conjunct2, THEN conjunct2, unfolded s2]
  note d = gr[THEN conjunct1, unfolded j2]
  show ?thesis
    by (intro conjI) (rule h1 h2 h3 h4 h5 h6 h7 a b c d)+
qed

section \<open>Metadata of the results\<close>

text \<open>
  C5 holds for \<open>predict\<close> and fails for \<open>predict_batch\<close>. On one document with the
  metadata \<open>author = ann\<close>, in per-document mode: \<open>predict\<close> returns a Document with the
  input's metadata and \<open>context\<close> added; \<open>predict_batch\<close>, for the flat list and for the
  list of one group, returns a Document whose metadata is \<open>context\<close> alone, so the
  \<open>author\<close> field of the input is not in the result. (For \<open>predict\<close> in general see
  \<open>predict_keeps_metadata\<close>.)
\<close>

theorem predict_batch_drops_metadata:
  "fst (predict (example_summarizer 5 200) initial_state [authored_doc ''abc'' ''ann''] None)
     = Inr [\<lparr>content = ''ab'', meta = [''author'' \<mapsto> VStr ''ann'', ''context'' \<mapsto> VStr ''abc'']\<rparr>]
   \<and> fst (predict_batch (example_summarizer 5 200) initial_state
           (flat_input [authored_doc ''abc'' ''ann'']) None None)
     = Inr [RDoc (summary_doc ''ab'' ''abc'')]
   \<and> fst (predict_batch (example_summarizer 5 200) initial_state
           (groups_input [[authored_doc ''abc'' ''ann'']]) None None)
     = Inr [RList [summary_doc ''ab'' ''abc'']]
   \<and> meta (authored_doc ''abc'' ''ann'') ''author'' = Some (VStr ''ann'')
   \<and> meta (summary_doc ''ab'' ''abc'') ''author'' = None"
proof -
  let ?self = "example_summarizer 5 200"
  let ?docs = "[authored_doc ''abc'' ''ann'']"
  have ne: "?docs \<noteq> []" by simp
  have nd: "\<not> no_documents (groups_input [?docs])" by (simp add: no_documents_groups)
  have a: "fst (predict ?self initial_state ?docs None)
     = Inr [\<lparr>content = ''ab'', meta = [''author'' \<mapsto> VStr ''ann'', ''context'' \<mapsto> VStr ''abc'']\<rparr>]"
    by (simp add: predict_valid[OF example_valid ne] example_single_default predict_contexts_def
          predict_summaries_def example_summarizer_list)
       (simp add: authored_doc_def)
  have b: "fst (predict_batch ?self initial_state (flat_input ?docs) None None)
     = Inr [RDoc (summary_doc ''ab'' ''abc'')]"
    by (simp add: batch_result_flat[OF example_contract_of example_valid ne] batch_summaries_def
          batch_contexts_flat[OF ne] example_single_default example_summarizer_dataset content_authored_doc)
  have gne: "[?docs] \<noteq> []" by simp
  have c: "fst (predict_batch ?self initial_state (groups_input [?docs]) None None)
     = Inr [RList [summary_doc ''ab'' ''abc'']]"
    by (simp add: batch_result_groups[OF example_valid nd] batch_summaries_def
          batch_contexts_groups[OF gne] batch_number_groups[OF gne] example_single_default
          example_summarizer_dataset content_authored_doc Let_def slice_def cur_summaries_def)
  have d: "meta (authored_doc ''abc'' ''ann'') ''author'' = Some (VStr ''ann'')"
    by (simp add: authored_doc_def)
  have e: "meta (summary_doc ''ab'' ''abc'') ''author'' = None"
    by (simp add: summary_doc_def)
  show ?thesis by (intro conjI) (rule a b c d e)+
qed

section \<open>The shape of the result of predict_batch\<close>

text \<open>
  C6, as amended. With \<open>min_length \<le> max_length\<close> and a pipeline that returns one summary
  per text: for a non-empty flat list, \<open>predict_batch\<close> returns a flat list of Documents,
  one in merged mode and one per input document otherwise; for a list of groups with at
  least one document, every entry of the returned list is a list of Documents, of one
  Document in merged mode and of as many Documents as the group has in per-document mode.
\<close>

theorem batch_result_shape:
  assumes contract: "one_summary_per_text (summarizer self)"
    and valid: "min_length self \<le> max_length self"
  shows "(documents \<noteq> [] \<longrightarrow>
            (\<exists>docs'. fst (predict_batch self st (flat_input documents) g b) = Inr (map RDoc docs')
                \<and> length docs' = (if single_of self g then 1 else length documents)))
       \<and> (\<not> no_documents (groups_input groups) \<longrightarrow>
            (\<exists>lists. fst (predict_batch self st (groups_input groups) g b) = Inr (map RList lists)
                \<and> length lists = length groups
                \<and> (\<forall>i < length groups.
                      length (lists ! i) = (if single_of self g then 1 else length (groups ! i)))))"
  using batch_shape_flat[OF contract valid] batch_shape_groups[OF contract valid] by blast

theorem batch_result_shape_witness:
  "one_summary_per_text (summarizer (example_summarizer 5 200))
   \<and> min_length (example_summarizer 5 200) \<le> max_length (example_summarizer 5 200)
   \<and> [plain_doc ''abc'', plain_doc ''de''] \<noteq> []
   \<and> \<not> no_documents (groups_input [[plain_doc ''abc'', plain_doc ''de''], [], [plain_doc ''xyz'']])
   \<and> (\<exists>docs'. fst (predict_batch (example_summarizer 5 200) initial_state
                     (flat_input [plain_doc ''abc'', plain_doc ''de'']) None None) = Inr (map RDoc docs')
         \<and> length docs' = 2)
   \<and> (\<exists>lists. fst (predict_batch (example_summarizer 5 200) initial_state
                     (groups_input [[plain_doc ''abc'', plain_doc ''de''], [], [plain_doc ''xyz'']])
                     (Some True) None) = Inr (map RList lists)
         \<and> length lists = 3 \<and> length (lists ! 0) = 1 \<and> length (lists ! 1) = 1 \<and> length (lists ! 2) = 1)
   \<and> (\<exists>lists. fst (predict_batch (example_summarizer 5 200) initial_state
                     (groups_input [[plain_doc ''abc'', plain_doc ''de''], [], [plain_doc ''xyz'']])
                     None None) = Inr (map RList lists)
         \<and> length lists = 3 \<and> length (lists ! 0) = 2 \<and> length (lists ! 1) = 0 \<and> length (lists ! 2) = 1)"
proof -
  let ?self = "example_summarizer 5 200"
  let ?docs = "[plain_doc ''abc'', plain_doc ''de'']"
  let ?groups = "[[plain_doc ''abc'', plain_doc ''de''], [], [plain_doc ''xyz'']]"
  have h1: "one_summary_per_text (summarizer ?self)" by (rule example_contract_of)
  have h2: "min_length ?self \<le> max_length ?self" by (rule example_valid)
  have h3: "?docs \<noteq> []" by simp
  have h4: "\<not> no_documents (groups_input ?groups)" by (simp add: no_documents_groups)
  have s: "single_of ?self (Some True) = True" by (simp add: single_of_def)
  note flat = batch_result_shape[OF h1 h2, THEN conjunct1, THEN mp, OF h3]
  note nested = batch_result_shape[OF h1 h2, THEN conjunct2, THEN mp, OF h4]
  have a: "\<exists>docs'. fst (predict_batch ?self initial_state (flat_input ?docs) None None) = Inr (map RDoc docs')
         \<and> length docs' = 2"
    using flat[of initial_state None None] by (simp add: example_single_default numeral_2_eq_2)
  have b: "\<exists>lists. fst (predict_batch ?self initial_state (groups_input ?groups) (Some True) None) = Inr (map RList lists)
         \<and> length lists = 3 \<and> length (lists ! 0) = 1 \<and> length (lists ! 1) = 1 \<and> length (lists ! 2) = 1"
  proof -
    from nested[of initial_state "Some True" None] obtain lists where
      r: "fst (predict_batch ?self initial_state (groups_input ?groups) (Some True) None) = Inr (map RList lists)"
      and l: "length lists = length ?groups"
      and e: "\<forall>i < length ?groups. length (lists ! i) = (if single_of ?self (Some True) then 1 else length (?groups ! i))"
      by blast
    have "length (lists ! 0) = 1" "length (lists ! 1) = 1" "length (lists ! 2) = 1"
      using e by (simp_all add: s)
    with r l show ?thesis by auto
  qed
  have c: "\<exists>lists. fst (predict_batch ?self initial_state (groups_input ?groups) None None) = Inr (map RList lists)
         \<and> length lists = 3 \<and> length (lists ! 0) = 2 \<and> length (lists ! 1) = 0 \<and> length (lists ! 2) = 1"
  proof -
    from nested[of initial_state None None] obtain lists where
      r: "fst (predict_batch ?self initial_state (groups_input ?groups) None None) = Inr (map RList lists)"
      and l: "length lists = length ?groups"
      and e: "\<forall>i < length ?groups. length (lists ! i) = (if single_of ?self None then 1 else length (?groups ! i))"
      by blast
    have "length (lists ! 0) = 2" "length (lists ! 1) = 0" "length (lists ! 2) = 1"
      using e by (simp_all add: example_single_default)
    with r l show ?thesis by auto
  qed
  show ?thesis by (intro conjI) (rule h1 h2 h3 h4 a b c)+
qed

text \<open>
  C6 as stated fails: in merged mode the entry of a group is a one-element list of
  Documents, not a Document.
\<close>

theorem merged_group_entry_is_a_list:
  "fst (predict_batch (example_summarizer 5 200) initial_state
         (groups_input [[plain_doc ''abc'', plain_doc ''de''], [plain_doc ''xyz'']]) (Some True) None)
     = Inr [RList [summary_doc ''ab'' ''abc de''], RList [summary_doc ''xy'' ''xyz'']]
   \<and> RList [summary_doc ''ab'' ''abc de''] \<noteq> RDoc (summary_doc ''ab'' ''abc de'')"
proof -
  let ?self = "example_summarizer 5 200"
  let ?groups = "[[plain_doc ''abc'', plain_doc ''de''], [plain_doc ''xyz'']]"
  have nd: "\<not> no_documents (groups_input ?groups)" by (simp add: no_documents_groups)
  have gne: "?groups \<noteq> []" by simp
  have s: "single_of ?self (Some True)" by (simp add: single_of_def)
  have a: "fst (predict_batch ?self initial_state (groups_input ?groups) (Some True) None)
     = Inr [RList [summary_doc ''ab'' ''abc de''], RList [summary_doc ''xy'' ''xyz'']]"
    by (simp add: batch_result_groups_merged[OF example_contract_of example_valid nd s] batch_summaries_def
          batch_contexts_groups[OF gne] s example_summarizer_dataset content_plain_doc example_separator)
  have b: "RList [summary_doc ''ab'' ''abc de''] \<noteq> RDoc (summary_doc ''ab'' ''abc de'')" by simp
  show ?thesis by (intro conjI) (rule a b)+
qed

section \<open>The configuration guard\<close>

text \<open>
  C7. When \<open>min_length > max_length\<close>, \<open>predict\<close> and \<open>predict_batch\<close> raise the
  \<^verbatim>\<open>AttributeError\<close> of the configuration check for every input, and the state they
  leave is the state they were given: no tokenizer call, no pipeline call and no warning
  has been added to the events.
\<close>

theorem invalid_configuration_first:
  assumes "min_length self > max_length self"
  shows "predict self st documents g = (Inl min_length_error, st)
       \<and> predict_batch self st items g b = (Inl min_length_error, st)"
  using assms by (simp add: predict_def predict_batch_def)

theorem invalid_configuration_first_witness:
  "min_length (example_summarizer 10 5) > max_length (example_summarizer 10 5)
   \<and> predict (example_summarizer 10 5) initial_state [plain_doc ''abc''] None
       = (Inl min_length_error, initial_state)
   \<and> predict_batch (example_summarizer 10 5) initial_state (flat_input [plain_doc ''abc'']) None None
       = (Inl min_length_error, initial_state)"
  using invalid_configuration_first
          [of "example_summarizer 10 5" initial_state "[plain_doc ''abc'']" None
              "flat_input [plain_doc ''abc'']" None]
  by (simp add: example_summarizer_def)

section \<open>The input guard\<close>

text \<open>
  C8, as amended. With \<open>min_length \<le> max_length\<close>, the empty list raises the
  \<^verbatim>\<open>AttributeError\<close> of the input check in \<open>predict\<close> and in \<open>predict_batch\<close>, and so does
  a list of groups that are all empty, such as \<open>[[], []]\<close>, in \<open>predict_batch\<close>; the state
  returned is the state given, so neither the tokenizer nor the pipeline was called.
\<close>

theorem empty_input_rejected:
  assumes valid: "min_length self \<le> max_length self"
  shows "predict self st [] g = (Inl no_document_error, st)
       \<and> predict_batch self st [] g b = (Inl no_document_error, st)
       \<and> predict_batch self st (groups_input [[], []]) g b = (Inl no_document_error, st)
       \<and> ((\<forall>docs \<in> set groups. docs = []) \<longrightarrow>
            predict_batch self st (groups_input groups) g b = (Inl no_document_error, st))"
proof -
  have a: "predict self st [] g = (Inl no_document_error, st)"
    using valid by (simp add: predict_def)
  have b: "predict_batch self st [] g b = (Inl no_document_error, st)"
    using valid by (simp add: predict_batch_def no_documents_def)
  have d: "(\<forall>docs \<in> set groups. docs = []) \<longrightarrow>
            predict_batch self st (groups_input groups) g b = (Inl no_document_error, st)" for groups
    using valid by (simp add: predict_batch_def no_documents_groups)
  have c: "predict_batch self st (groups_input [[], []]) g b = (Inl no_document_error, st)"
    using d[of "[[], []]"] by simp
  show ?thesis by (intro conjI) (rule a b c d)+
qed

theorem empty_input_rejected_witness:
  "min_length (example_summarizer 5 200) \<le> max_length (example_summarizer 5 200)
   \<and> predict (example_summarizer 5 200) initial_state [] None = (Inl no_document_error, initial_state)
   \<and> predict_batch (example_summarizer 5 200) initial_state [] None None
       = (Inl no_document_error, initial_state)
   \<and> predict_batch (example_summarizer 5 200) initial_state (groups_input [[], []]) None None
       = (Inl no_document_error, initial_state)
   \<and> events initial_state = []"
proof -
  note inst = empty_input_rejected[OF example_valid, of initial_state None None "[]"]
  have e: "events initial_state = []" by (simp add: initial_state_def)
  show ?thesis
    by (intro conjI)
       (rule example_valid inst[THEN conjunct1] inst[THEN conjunct2, THEN conjunct1]
             inst[THEN conjunct2, THEN conjunct2, THEN conjunct1] e)+
qed

text \<open>
  C8 as stated fails: with \<open>min_length > max_length\<close> the configuration check comes first,
  and the empty inputs raise its error, not the error of the input check.
\<close>

theorem empty_input_invalid_configuration:
  "predict (example_summarizer 10 5) initial_state [] None = (Inl min_length_error, initial_state)
   \<and> predict_batch (example_summarizer 10 5) initial_state [] None None
       = (Inl min_length_error, initial_state)
   \<and> predict_batch (example_summarizer 10 5) initial_state (groups_input [[], []]) None None
       = (Inl min_length_error, initial_state)
   \<and> min_length_error \<noteq> no_document_error"
proof -
  have a: "predict (example_summarizer 10 5) initial_state [] None = (Inl min_length_error, initial_state)"
    using example_invalid by (simp add: predict_def)
  have b: "predict_batch (example_summarizer 10 5) initial_state [] None None
       = (Inl min_length_error, initial_state)"
    using example_invalid by (simp add: predict_batch_def)
  have c: "predict_batch (example_summarizer 10 5) initial_state (groups_input [[], []]) None None
       = (Inl min_length_error, initial_state)"
    using example_invalid by (simp add: predict_batch_def)
  show ?thesis by (intro conjI) (rule a b c errors_differ)+
qed

section \<open>The truncation advisory\<close>

text \<open>
  C9. With \<open>w\<close> the warning text for the tokenizer's maximum sequence length: a call of
  \<open>predict\<close> that passes the guards calls the tokenizer, logs \<open>w\<close> once if some text is
  too long and \<open>w\<close> is not in \<^verbatim>\<open>print_log\<close>, logs nothing otherwise, then calls the
  pipeline; it adds \<open>w\<close> to \<^verbatim>\<open>print_log\<close> if some text is too long. After any series of
  calls of \<open>predict\<close> on a new instance, the log holds a text exactly once if it is \<open>w\<close>
  and some call had a text that is too long, and not at all otherwise. A call of
  \<open>predict_batch\<close> that passes the guards calls the tokenizer, logs \<open>w\<close> once if some text
  is too long, whatever their number, then calls the pipeline. The result of either
  method does not depend on the tokenizer, on its maximum sequence length or on the
  state: the advisory neither blocks nor aborts inference. No call of \<open>predict_batch\<close>
  changes \<^verbatim>\<open>print_log\<close>; so after any series of calls of both methods on a new instance,
  \<^verbatim>\<open>print_log\<close> holds \<open>w\<close> if some call of \<open>predict\<close> had a text that is too long and is
  empty otherwise, and the calls of \<open>predict\<close> in the series have logged a text exactly
  once if it is \<open>w\<close> and one of them had a text that is too long, and not at all otherwise.
\<close>

theorem truncation_advisory:
  fixes self :: transformers_summarizer
  defines "w \<equiv> truncation_warning (model_max_length (summarizer self))"
  assumes valid: "min_length self \<le> max_length self"
    and ne: "documents \<noteq> []"
    and nd: "\<not> no_documents items"
  shows "new_events st (snd (predict self st documents g)) =
           TokenizerCall (predict_contexts self documents g) #
           (if too_long (summarizer self) (predict_contexts self documents g) \<and> w \<notin> print_log st
            then [LoggerWarning w] else []) @
           [SummarizerCall (predict_contexts self documents g)]
       \<and> print_log (snd (predict self st documents g)) =
           (if too_long (summarizer self) (predict_contexts self documents g)
            then insert w (print_log st) else print_log st)
       \<and> count_list (events (predict_calls self initial_state calls)) (LoggerWarning m) =
           (if m = w \<and> list_ex (overlong_call self) calls then 1 else 0)
       \<and> new_events st (snd (predict_batch self st items g b)) =
           TokenizerCall (batch_contexts self items g) #
           (if too_long (summarizer self) (batch_contexts self items g) then [LoggerWarning w] else []) @
           [SummarizerCall (batch_contexts self items g)]
       \<and> length (filter is_LoggerWarning (new_events st (snd (predict_batch self st items g b)))) \<le> 1
       \<and> fst (predict (self\<lparr>summarizer := (summarizer self)\<lparr>tokenizer := tok, model_max_length := mml\<rparr>\<rparr>)
                 st' documents g)
           = fst (predict self st documents g)
       \<and> fst (predict_batch (self\<lparr>summarizer := (summarizer self)\<lparr>tokenizer := tok, model_max_length := mml\<rparr>\<rparr>)
                 st' items g b)
           = fst (predict_batch self st items g b)
       \<and> print_log (snd (predict_batch self st batch_input g b)) = print_log st
       \<and> print_log (after_calls self initial_state mixed) =
           (if list_ex (overlong_predict self) mixed then {w} else {})
       \<and> count_list (logged_by_predict self initial_state mixed) (LoggerWarning m) =
           (if m = w \<and> list_ex (overlong_predict self) mixed then 1 else 0)"
proof -
  have a: "new_events st (snd (predict self st documents g)) =
           TokenizerCall (predict_contexts self documents g) #
           (if too_long (summarizer self) (predict_contexts self documents g) \<and> w \<notin> print_log st
            then [LoggerWarning w] else []) @
           [SummarizerCall (predict_contexts self documents g)]"
    unfolding w_def by (rule predict_new_events[OF valid ne])
  have b: "print_log (snd (predict self st documents g)) =
           (if too_long (summarizer self) (predict_contexts self documents g)
            then insert w (print_log st) else print_log st)"
    unfolding w_def by (rule predict_print_log[OF valid ne])
  have c: "count_list (events (predict_calls self initial_state calls)) (LoggerWarning m) =
           (if m = w \<and> list_ex (overlong_call self) calls then 1 else 0)"
    unfolding w_def by (simp add: predict_calls_warnings[OF valid] initial_state_def)
  have d: "new_events st (snd (predict_batch self st items g b)) =
           TokenizerCall (batch_contexts self items g) #
           (if too_long (summarizer self) (batch_contexts self items g) then [LoggerWarning w] else []) @
           [SummarizerCall (batch_contexts self items g)]"
    unfolding w_def by (rule batch_new_events[OF valid nd])
  have e: "length (filter is_LoggerWarning (new_events st (snd (predict_batch self st items g b)))) \<le> 1"
    by (simp add: d)
  have f: "print_log (snd (predict_batch self st batch_input g b)) = print_log st"
    by (rule batch_print_log_any[OF valid])
  have h: "print_log (after_calls self initial_state mixed) =
           (if list_ex (overlong_predict self) mixed then {w} else {})"
    unfolding w_def by (simp add: after_calls_print_log[OF valid] initial_state_def)
  have k: "count_list (logged_by_predict self initial_state mixed) (LoggerWarning m) =
           (if m = w \<and> list_ex (overlong_predict self) mixed then 1 else 0)"
    unfolding w_def by (simp add: logged_by_predict_count[OF valid] initial_state_def)
  show ?thesis
    by (intro conjI)
       (rule a b c d e f h k predict_result_ignores_tokenizer batch_result_ignores_tokenizer)+
qed

theorem truncation_advisory_witness:
  "min_length (example_summarizer 5 200) \<le> max_length (example_summarizer 5 200)
   \<and> [plain_doc ''abcdef'', plain_doc ''ghijklm''] \<noteq> []
   \<and> \<not> no_documents (flat_input [plain_doc ''abcdef'', plain_doc ''ghijklm''])
   \<and> new_events initial_state (snd (predict (example_summarizer 5 200) initial_state
         [plain_doc ''abcdef'', plain_doc ''ghijklm''] None))
       = [TokenizerCall [''abcdef'', ''ghijklm''], LoggerWarning (truncation_warning 4),
          SummarizerCall [''abcdef'', ''ghijklm'']]
   \<and> print_log (snd (predict (example_summarizer 5 200) initial_state
         [plain_doc ''abcdef'', plain_doc ''ghijklm''] None))
       = {truncation_warning 4}
   \<and> count_list (events (predict_calls (example_summarizer 5 200) initial_state
         [([plain_doc ''abcdef'', plain_doc ''ghijklm''], None),
          ([plain_doc ''abcdef'', plain_doc ''ghijklm''], None),
          ([plain_doc ''abcdef''], Some True)])) (LoggerWarning (truncation_warning 4)) = 1
   \<and> new_events initial_state (snd (predict_batch (example_summarizer 5 200) initial_state
         (flat_input [plain_doc ''abcdef'', plain_doc ''ghijklm'']) None None))
       = [TokenizerCall [''abcdef'', ''ghijklm''], LoggerWarning (truncation_warning 4),
          SummarizerCall [''abcdef'', ''ghijklm'']]
   \<and> print_log (snd (predict_batch (example_summarizer 5 200) initial_state
         (flat_input [plain_doc ''abcdef'', plain_doc ''ghijklm'']) None None))
       = print_log initial_state
   \<and> print_log (after_calls (example_summarizer 5 200) initial_state
         [Predict [plain_doc ''abcdef'', plain_doc ''ghijklm''] None,
          PredictBatch (flat_input [plain_doc ''abcdef'', plain_doc ''ghijklm'']) None None,
          Predict [plain_doc ''abcdef'', plain_doc ''ghijklm''] None])
       = {truncation_warning 4}
   \<and> count_list (logged_by_predict (example_summarizer 5 200) initial_state
         [Predict [plain_doc ''abcdef'', plain_doc ''ghijklm''] None,
          PredictBatch (flat_input [plain_doc ''abcdef'', plain_doc ''ghijklm'']) None None,
          Predict [plain_doc ''abcdef'', plain_doc ''ghijklm''] None])
         (LoggerWarning (truncation_warning 4)) = 1"
proof -
  let ?self = "example_summarizer 5 200"
  let ?docs = "[plain_doc ''abcdef'', plain_doc ''ghijklm'']"
  let ?calls = "[(?docs, None), (?docs, None), ([plain_doc ''abcdef''], Some True)]"
  let ?mixed = "[Predict ?docs None, PredictBatch (flat_input ?docs) None None, Predict ?docs None]"
  have h1: "min_length ?self \<le> max_length ?self" by (rule example_valid)
  have h2: "?docs \<noteq> []" by simp
  have h3: "\<not> no_documents (flat_input ?docs)" by (simp add: no_documents_flat)
  note inst = truncation_advisory[OF h1 h2 h3, of initial_state None ?calls "truncation_warning 4" None
                _ _ _ "flat_input ?docs" ?mixed, unfolded example_mml]
  have pc: "predict_contexts ?self ?docs None = [''abcdef'', ''ghijklm'']"
    by (simp add: predict_contexts_def example_single_default content_plain_doc)
  have bc: "batch_contexts ?self (flat_input ?docs) None = [''abcdef'', ''ghijklm'']"
    by (simp add: batch_contexts_flat[OF h2] example_single_default content_plain_doc)
  have tl: "too_long (summarizer ?self) [''abcdef'', ''ghijklm'']"
    by (simp add: example_too_long)
  have fresh: "truncation_warning 4 \<notin> print_log initial_state"
    by (simp add: initial_state_def)
  have ov: "list_ex (overlong_call ?self) ?calls"
    by (simp add: overlong_call_def pc tl)
  have ovm: "list_ex (overlong_predict ?self) ?mixed"
    by (simp add: overlong_call_def pc tl)
  have a: "new_events initial_state (snd (predict ?self initial_state ?docs None))
       = [TokenizerCall [''abcdef'', ''ghijklm''], LoggerWarning (truncation_warning 4),
          SummarizerCall [''abcdef'', ''ghijklm'']]"
    using inst[THEN conjunct1] tl fresh by (simp add: pc)
  have b: "print_log (snd (predict ?self initial_state ?docs None)) = {truncation_warning 4}"
    using inst[THEN conjunct2, THEN conjunct1] tl by (simp add: pc initial_state_def)
  have c: "count_list (events (predict_calls ?self initial_state ?calls)) (LoggerWarning (truncation_warning 4)) = 1"
    using inst[THEN conjunct2, THEN conjunct2, THEN conjunct1] ov by simp
  have d: "new_events initial_state (snd (predict_batch ?self initial_state (flat_input ?docs) None None))
       = [TokenizerCall [''abcdef'', ''ghijklm''], LoggerWarning (truncation_warning 4),
          SummarizerCall [''abcdef'', ''ghijklm'']]"
    using inst[THEN conjunct2, THEN conjunct2, THEN conjunct2, THEN conjunct1] tl by (simp add: bc)
  note rest = inst[THEN conjunct2, THEN conjunct2, THEN conjunct2, THEN conjunct2, THEN conjunct2,
                   THEN conjunct2, THEN conjunct2]
  note e = rest[THEN conjunct1]
  have f: "print_log (after_calls ?self initial_state ?mixed) = {truncation_warning 4}"
    using rest[THEN conjunct2, THEN conjunct1] ovm by simp
  have k: "count_list (logged_by_predict ?self initial_state ?mixed) (LoggerWarning (truncation_warning 4)) = 1"
    using rest[THEN conjunct2, THEN conjunct2] ovm by simp
  show ?thesis by (intro conjI) (rule h1 h2 h3 a b c d e f k)+
qed

section \<open>Empty groups in merged mode\<close>

text \<open>
  C10. In a call of \<open>predict_batch\<close> on a list of groups in merged mode that passes the
  guards, with a pipeline that returns one summary per text, an empty group \<open>i\<close> is not
  skipped: there is one text per group, the text of group \<open>i\<close> is the empty string and its
  count is 1, the pipeline is called once on all the texts and returns one summary per
  group, and entry \<open>i\<close> of the result is the list of one Document whose content is the
  \<open>i\<close>-th summary and whose \<open>context\<close> is the empty string.
\<close>

theorem empty_group_in_merged_mode:
  assumes contract: "one_summary_per_text (summarizer self)"
    and valid: "min_length self \<le> max_length self"
    and nd: "\<not> no_documents (groups_input groups)"
    and single: "single_of self g"
    and i: "i < length groups"
    and empty: "groups ! i = []"
  shows "length (batch_contexts self (groups_input groups) g) = length groups
       \<and> batch_contexts self (groups_input groups) g ! i = ''''
       \<and> batch_number_of_docs self (groups_input groups) g ! i = 1
       \<and> filter is_SummarizerCall (new_events st (snd (predict_batch self st (groups_input groups) g b)))
           = [SummarizerCall (batch_contexts self (groups_input groups) g)]
       \<and> length (batch_summaries self (groups_input groups) g b) = length groups
       \<and> (\<exists>result. fst (predict_batch self st (groups_input groups) g b) = Inr result
             \<and> length result = length groups
             \<and> result ! i = RList [summary_doc (batch_summaries self (groups_input groups) g b ! i) ''''])
       \<and> meta (summary_doc (batch_summaries self (groups_input groups) g b ! i) '''') ''context''
           = Some (VStr '''')"
proof -
  let ?d = "groups_input groups"
  let ?sep = "separator_for_single_summary self"
  have ne: "groups \<noteq> []" using nd by (rule no_documents_groups_nonempty)
  have c: "batch_contexts self ?d g = map (\<lambda>docs. join ?sep (map content docs)) groups"
    using single by (simp add: batch_contexts_groups[OF ne])
  have lc: "length (batch_contexts self ?d g) = length groups" by (simp add: c)
  have ci: "batch_contexts self ?d g ! i = ''''" using i empty by (simp add: c)
  have n: "batch_number_of_docs self ?d g ! i = 1"
    using single i by (simp add: batch_number_groups[OF ne])
  have calls: "filter is_SummarizerCall (new_events st (snd (predict_batch self st ?d g b)))
           = [SummarizerCall (batch_contexts self ?d g)]"
    by (simp add: batch_new_events[OF valid nd])
  have ls: "length (batch_summaries self ?d g b) = length groups"
    using batch_summaries_length[OF contract, of ?d g b] lc by simp
  let ?result = "map (\<lambda>(s, c). RList [summary_doc s c])
                   (zip (batch_summaries self ?d g b) (batch_contexts self ?d g))"
  have r: "fst (predict_batch self st ?d g b) = Inr ?result"
    by (rule batch_result_groups_merged[OF contract valid nd single])
  have lr: "length ?result = length groups" using ls lc by simp
  have ri: "?result ! i = RList [summary_doc (batch_summaries self ?d g b ! i) '''']"
    using i ls lc ci by simp
  have ex: "\<exists>result. fst (predict_batch self st ?d g b) = Inr result
             \<and> length result = length groups
             \<and> result ! i = RList [summary_doc (batch_summaries self ?d g b ! i) '''']"
    using r lr ri by blast
  show ?thesis
    by (intro conjI) (rule lc ci n calls ls ex context_of_summary_doc)+
qed

theorem empty_group_in_merged_mode_witness:
  "one_summary_per_text (summarizer (example_summarizer 5 200))
   \<and> min_length (example_summarizer 5 200) \<le> max_length (example_summarizer 5 200)
   \<and> \<not> no_documents (groups_input [[plain_doc ''abc''], []])
   \<and> single_of (example_summarizer 5 200) (Some True)
   \<and> 1 < length [[plain_doc ''abc''], []]
   \<and> [[plain_doc ''abc''], []] ! 1 = []
   \<and> batch_contexts (example_summarizer 5 200) (groups_input [[plain_doc ''abc''], []]) (Some True)
       = [''abc'', '''']
   \<and> filter is_SummarizerCall (new_events initial_state (snd (predict_batch (example_summarizer 5 200)
         initial_state (groups_input [[plain_doc ''abc''], []]) (Some True) None)))
       = [SummarizerCall [''abc'', '''']]
   \<and> fst (predict_batch (example_summarizer 5 200) initial_state
         (groups_input [[plain_doc ''abc''], []]) (Some True) None)
       = Inr [RList [summary_doc ''ab'' ''abc''], RList [summary_doc '''' '''']]"
proof -
  let ?self = "example_summarizer 5 200"
  let ?groups = "[[plain_doc ''abc''], []]"
  have h1: "one_summary_per_text (summarizer ?self)" by (rule example_contract_of)
  have h2: "min_length ?self \<le> max_length ?self" by (rule example_valid)
  have h3: "\<not> no_documents (groups_input ?groups)" by (simp add: no_documents_groups)
  have h4: "single_of ?self (Some True)" by (simp add: single_of_def)
  have h5: "1 < length ?groups" by simp
  have h6: "?groups ! 1 = []" by simp
  note inst = empty_group_in_merged_mode[OF h1 h2 h3 h4 h5 h6, of initial_state None]
  have gne: "?groups \<noteq> []" by simp
  have c: "batch_contexts ?self (groups_input ?groups) (Some True) = [''abc'', '''']"
    by (simp add: batch_contexts_groups[OF gne] h4 content_plain_doc)
  have s: "batch_summaries ?self (groups_input ?groups) (Some True) None = [''ab'', '''']"
    by (simp add: batch_summaries_def c example_summarizer_dataset)
  note calls = inst[THEN conjunct2, THEN conjunct2, THEN conjunct2, THEN conjunct1, unfolded c]
  have r: "fst (predict_batch ?self initial_state (groups_input ?groups) (Some True) None)
       = Inr [RList [summary_doc ''ab'' ''abc''], RList [summary_doc '''' '''']]"
    by (simp add: batch_result_groups_merged[OF h1 h2 h3 h4] c s)
  show ?thesis by (intro conjI) (rule h1 h2 h3 h4 h5 h6 c calls r)+
qed

end
